theory Spec2Isabelle
  imports Main "HOL-Library.Word"
begin

section \<open>Hierarchical-deterministic ed25519 nodes (src/Impl/ed25519.ts)\<close>

subsection \<open>Buffers\<close>

text \<open>
  A Node.js \<open>Buffer\<close> is a sequence of bytes. JavaScript numbers are modelled as \<open>int\<close>
  (the integral ones; nothing in the file produces a fraction), so no addition wraps.
\<close>

type_synonym byte = "8 word"
type_synonym buffer = "byte list"

datatype error =
    InvalidSeedLength        \<comment> \<open>TypeError: Seed should be at least 128 bits / at most 512 bits\<close>
  | InvalidLength            \<comment> \<open>TypeError: Base58 payload must be exactly 78 bytes\<close>
  | InvalidVersion           \<comment> \<open>TypeError: Payload Version must be one of ...\<close>
  | InvalidMasterNode        \<comment> \<open>TypeError: Expected master node ... / Expected index 0 with depth 0 ...\<close>
  | InvalidPrivateKeyMarker  \<comment> \<open>TypeError: Private key must start be prepended by 0x00\<close>
  | MissingPrivateKey        \<comment> \<open>Missing private key (getter, and hardened derivation in derive)\<close>
  | IndexOverflow            \<comment> \<open>TypeError: Hardened derivation maximum index overflow\<close>
  | InvalidPath              \<comment> \<open>TypeError: Invalid BIP32 derivation path provided\<close>
  | ExpectedMasterNode       \<comment> \<open>TypeError: Expected master node with "m" derivation ...\<close>
  | RangeError               \<comment> \<open>thrown by Buffer.writeUInt8 / writeUInt32BE on a value out of range\<close>
  | CollaboratorError        \<comment> \<open>an exception raised inside an imported library\<close>

text \<open>\<open>Buffer.allocUnsafe(n)\<close>: \<open>n\<close> bytes of whatever the memory held, here the argument \<open>junk\<close>.\<close>

definition allocUnsafe :: "nat \<Rightarrow> buffer \<Rightarrow> buffer" where
  "allocUnsafe n junk = take n (junk @ replicate n 0)"

text \<open>\<open>b.slice(i, j)\<close> for \<open>0 \<le> i \<le> j\<close>; the end is clamped to the length as in Node.\<close>

definition slice :: "buffer \<Rightarrow> nat \<Rightarrow> nat \<Rightarrow> buffer" where
  "slice b i j = take (j - i) (drop i b)"

text \<open>\<open>src.copy(target, targetStart)\<close>: copies as many bytes of \<open>src\<close> as fit.\<close>

definition copy :: "buffer \<Rightarrow> buffer \<Rightarrow> nat \<Rightarrow> buffer" where
  "copy src target targetStart =
     (let n = min (length src) (length target - targetStart)
      in take targetStart target @ take n src @ drop (targetStart + n) target)"

definition uint32BE :: "int \<Rightarrow> buffer" where
  "uint32BE v = [word_of_int (v div 2 ^ 24), word_of_int (v div 2 ^ 16),
                 word_of_int (v div 2 ^ 8), word_of_int v]"

definition writeUInt32BE :: "buffer \<Rightarrow> int \<Rightarrow> nat \<Rightarrow> error + buffer" where
  "writeUInt32BE b v off =
     (if 0 \<le> v \<and> v < 2 ^ 32 \<and> off + 4 \<le> length b
      then Inr (take off b @ uint32BE v @ drop (off + 4) b)
      else Inl RangeError)"

definition writeUInt8 :: "buffer \<Rightarrow> int \<Rightarrow> nat \<Rightarrow> error + buffer" where
  "writeUInt8 b v off =
     (if 0 \<le> v \<and> v < 2 ^ 8 \<and> off < length b
      then Inr (b[off := word_of_int v])
      else Inl RangeError)"

text \<open>Reads are only made by \<open>fromBase58\<close>, after it has checked that the length is 78.\<close>

definition readUInt8 :: "buffer \<Rightarrow> nat \<Rightarrow> int" where
  "readUInt8 b off = uint (b ! off)"

definition readUInt32BE :: "buffer \<Rightarrow> nat \<Rightarrow> int" where
  "readUInt32BE b off =
     uint (b ! off) * 2 ^ 24 + uint (b ! (off + 1)) * 2 ^ 16
       + uint (b ! (off + 2)) * 2 ^ 8 + uint (b ! (off + 3))"

subsection \<open>Imported collaborators\<close>

text \<open>
  \<open>Network\<close> and its constant \<open>Network.CATAPULT\<close>, \<open>CatapultECC\<close>, \<open>create-hmac\<close>,
  \<open>bs58check\<close> and \<open>nacl_catapult\<close> are imported by the file and are parameters here.
  \<open>nacl_catapult.add(Ki, IL)\<close> is called for its effect only (the result is dropped):
  \<open>nacl_add\<close> gives the bytes that the first argument holds after the call, or \<open>None\<close>
  when the call throws.
  \<open>extractPublicKey\<close> receives \<open>__D\<close> as it is (\<open>None\<close> for \<open>undefined\<close>) and may throw
  (\<open>None\<close>); \<open>bs58check_decode\<close> throws (\<open>None\<close>) on a malformed or badly checksummed text.
\<close>

record Network =
  privateKeyPrefix :: int
  publicKeyPrefix :: int

record externals =
  createHmac_sha512 :: "buffer \<Rightarrow> buffer \<Rightarrow> buffer"
  extractPublicKey :: "buffer option \<Rightarrow> buffer option"
  nacl_add :: "buffer \<Rightarrow> buffer \<Rightarrow> buffer option"
  bs58check_encode :: "buffer \<Rightarrow> string"
  bs58check_decode :: "string \<Rightarrow> buffer option"
  CATAPULT :: Network

subsection \<open>Nodes and the object store\<close>

text \<open>
  Node objects and the Buffers holding public keys live in a store, because the code
  shares and overwrites them: \<open>__Q\<close> is assigned once by the \<open>publicKey\<close> getter, the same
  public-key Buffer is handed from a node to its neutered copy and to a child, and
  \<open>nacl_catapult.add\<close> writes into it. Private keys and chain codes are never written
  after construction and are kept by value.
\<close>

type_synonym addr = nat
type_synonym nid = nat

text \<open>
  An operation returns either the error it throws or its result together with the store
  it leaves.
\<close>

record Node =
  node_D :: "buffer option"            \<comment> \<open>\<open>__D\<close>, the private key or undefined\<close>
  node_Q :: "addr option"              \<comment> \<open>\<open>__Q\<close>, the public-key Buffer or undefined\<close>
  chainCode :: buffer
  network :: Network
  node_DEPTH :: int
  node_INDEX :: int
  node_PARENT_FINGERPRINT :: int

record state =
  nodes :: "Node list"
  bufs :: "buffer list"

datatype buffer_ref = null | Buf addr

definition NodeEd25519 ::
  "buffer option \<Rightarrow> addr option \<Rightarrow> buffer \<Rightarrow> Network \<Rightarrow> int \<Rightarrow> int \<Rightarrow> int \<Rightarrow> Node" where
  "NodeEd25519 d q cc net depth idx pfp =
     \<lparr>node_D = d, node_Q = q, chainCode = cc, network = net,
      node_DEPTH = depth, node_INDEX = idx, node_PARENT_FINGERPRINT = pfp\<rparr>"

text \<open>\<open>new\<close>: the object gets the next free identity.\<close>

definition new_node :: "state \<Rightarrow> Node \<Rightarrow> nid \<times> state" where
  "new_node st n = (length (nodes st), st\<lparr>nodes := nodes st @ [n]\<rparr>)"

definition new_buffer :: "state \<Rightarrow> buffer \<Rightarrow> addr \<times> state" where
  "new_buffer st b = (length (bufs st), st\<lparr>bufs := bufs st @ [b]\<rparr>)"

definition catapult_seed :: buffer where
  "catapult_seed = map (of_char :: char \<Rightarrow> byte) ''Catapult seed''"

definition fromSeed :: "externals \<Rightarrow> state \<Rightarrow> buffer \<Rightarrow> Network \<Rightarrow> error + (nid \<times> state)" where
  "fromSeed env st seed net =
     (if length seed < 16 then Inl InvalidSeedLength
      else if length seed > 64 then Inl InvalidSeedLength
      else let I = createHmac_sha512 env catapult_seed seed;
               IL = slice I 0 32;
               IR = drop 32 I
           in Inr (new_node st (NodeEd25519 (Some IL) None IR net 0 0 0)))"

subsection \<open>Getters\<close>

definition publicKey :: "externals \<Rightarrow> state \<Rightarrow> nid \<Rightarrow> error + (addr \<times> state)" where
  "publicKey env st this =
     (case node_Q (nodes st ! this) of
        Some q \<Rightarrow> Inr (q, st)
      | None \<Rightarrow>
          (case extractPublicKey env (node_D (nodes st ! this)) of
             None \<Rightarrow> Inl CollaboratorError
           | Some pk \<Rightarrow>
               let (a, st1) = new_buffer st pk
               in Inr (a, st1\<lparr>nodes := (nodes st1)[this := (nodes st1 ! this)\<lparr>node_Q := Some a\<rparr>]\<rparr>)))"

definition privateKey :: "state \<Rightarrow> nid \<Rightarrow> error + buffer" where
  "privateKey st this =
     (case node_D (nodes st ! this) of None \<Rightarrow> Inl MissingPrivateKey | Some d \<Rightarrow> Inr d)"

definition isNeutered :: "state \<Rightarrow> nid \<Rightarrow> bool" where
  "isNeutered st this = (node_D (nodes st ! this) = None)"

definition neutered :: "externals \<Rightarrow> state \<Rightarrow> nid \<Rightarrow> error + (nid \<times> state)" where
  "neutered env st this =
     (case publicKey env st this of
        Inl e \<Rightarrow> Inl e
      | Inr (q, st1) \<Rightarrow>
          let n = nodes st1 ! this
          in Inr (new_node st1 (NodeEd25519 None (Some q) (chainCode n) (network n)
                    (node_DEPTH n) (node_INDEX n) (node_PARENT_FINGERPRINT n))))"

subsection \<open>Child key derivation\<close>

text \<open>
  \<open>new NodeEd25519(IL, undefined, IR)\<close> leaves the last four constructor parameters to
  their defaults: \<open>Network.CATAPULT\<close>, depth 0, index 0, parent fingerprint 0.
  The 4-byte index buffer is overwritten whole, so its initial contents do not matter.
\<close>

definition CKDPriv :: "externals \<Rightarrow> state \<Rightarrow> nid \<Rightarrow> int \<Rightarrow> error + (nid \<times> state)" where
  "CKDPriv env st parent index =
     (case writeUInt32BE (allocUnsafe 4 []) index 0 of
        Inl e \<Rightarrow> Inl e
      | Inr indexBuffer \<Rightarrow>
          (case privateKey st parent of
             Inl e \<Rightarrow> Inl e
           | Inr d \<Rightarrow>
               let data = replicate 1 0 @ d @ indexBuffer;
                   I = createHmac_sha512 env (chainCode (nodes st ! parent)) data;
                   IL = slice I 0 32;
                   IR = drop 32 I
               in Inr (new_node st (NodeEd25519 (Some IL) None IR (CATAPULT env) 0 0 0))))"

text \<open>
  In \<open>CKDPub\<close> the constant \<open>Ki\<close> is the reference that the \<open>publicKey\<close> getter
  returned, and \<open>nacl_catapult.add\<close> writes through it or throws. The retry on \<open>Ki === null\<close> is
  kept as the source has it; the definition is total because that test cannot succeed.
\<close>

function CKDPub :: "externals \<Rightarrow> state \<Rightarrow> nid \<Rightarrow> int \<Rightarrow> error + (nid \<times> state)" where
  "CKDPub env st parent index =
     (case writeUInt32BE (allocUnsafe 4 []) index 0 of
        Inl e \<Rightarrow> Inl e
      | Inr indexBuffer \<Rightarrow>
          (case publicKey env st parent of
             Inl e \<Rightarrow> Inl e
           | Inr (pk, st1) \<Rightarrow>
               let data = bufs st1 ! pk @ indexBuffer;
                   I = createHmac_sha512 env (chainCode (nodes st1 ! parent)) data;
                   IL = slice I 0 32;
                   IR = drop 32 I
               in (case publicKey env st1 parent of
                     Inl e \<Rightarrow> Inl e
                   | Inr (q, st2) \<Rightarrow>
                       let Ki = Buf q
                       in (case nacl_add env (bufs st2 ! q) IL of
                             None \<Rightarrow> Inl CollaboratorError
                           | Some written \<Rightarrow>
                               let st3 = st2\<lparr>bufs := (bufs st2)[q := written]\<rparr>
                               in if Ki = null then CKDPub env st3 parent (index + 1)
                                  else Inr (new_node st3
                                         (NodeEd25519 None (Some q) IR (CATAPULT env) 0 0 0))))))"
  by pat_completeness auto
termination
  by (relation "{}") auto

definition HIGHEST_BIT :: int where
  "HIGHEST_BIT = 2147483648"

definition derive :: "externals \<Rightarrow> state \<Rightarrow> nid \<Rightarrow> int \<Rightarrow> error + (nid \<times> state)" where
  "derive env st this index =
     (let isHardened = (index \<ge> HIGHEST_BIT)
      in if isHardened \<and> isNeutered st this then Inl MissingPrivateKey
         else if \<not> isNeutered st this then CKDPriv env st this index
         else CKDPub env st this index)"

definition deriveHardened :: "externals \<Rightarrow> state \<Rightarrow> nid \<Rightarrow> int \<Rightarrow> error + (nid \<times> state)" where
  "deriveHardened env st this index =
     (let UINT31_MAX = 2 ^ 31 - 1
      in if index > UINT31_MAX then Inl IndexOverflow
         else derive env st this (index + HIGHEST_BIT))"

subsection \<open>The extended-key codec\<close>

text \<open>
  \<open>toBase58\<close> fills a 78-byte Buffer obtained from \<open>Buffer.allocUnsafe\<close>, whose initial
  contents \<open>junk\<close> are whatever the memory held.
\<close>

definition toBase58 :: "externals \<Rightarrow> buffer \<Rightarrow> state \<Rightarrow> nid \<Rightarrow> error + (string \<times> state)" where
  "toBase58 env junk st this =
     (let n = nodes st ! this;
          version = (if \<not> isNeutered st this then privateKeyPrefix (CATAPULT env)
                     else publicKeyPrefix (CATAPULT env));
          buffer = allocUnsafe 78 junk
      in case writeUInt32BE buffer version 0 of
           Inl e \<Rightarrow> Inl e
         | Inr b1 \<Rightarrow>
        (case writeUInt8 b1 (node_DEPTH n) 4 of
           Inl e \<Rightarrow> Inl e
         | Inr b2 \<Rightarrow>
        (case writeUInt32BE b2 (node_PARENT_FINGERPRINT n) 5 of
           Inl e \<Rightarrow> Inl e
         | Inr b3 \<Rightarrow>
        (case writeUInt32BE b3 (node_INDEX n) 9 of
           Inl e \<Rightarrow> Inl e
         | Inr b4 \<Rightarrow>
           let b5 = copy (chainCode n) b4 13
           in if \<not> isNeutered st this then
                (case writeUInt8 b5 0 45 of
                   Inl e \<Rightarrow> Inl e
                 | Inr b6 \<Rightarrow>
                     (case privateKey st this of
                        Inl e \<Rightarrow> Inl e
                      | Inr d \<Rightarrow> Inr (bs58check_encode env (copy d b6 46), st)))
              else
                (case publicKey env st this of
                   Inl e \<Rightarrow> Inl e
                 | Inr (q, st1) \<Rightarrow>
                     Inr (bs58check_encode env (copy (bufs st1 ! q) b5 45), st1))))))"

definition fromBase58 :: "externals \<Rightarrow> state \<Rightarrow> string \<Rightarrow> Network \<Rightarrow> error + (nid \<times> state)" where
  "fromBase58 env st inString net =
     (case bs58check_decode env inString of
        None \<Rightarrow> Inl CollaboratorError
      | Some buffer \<Rightarrow>
          if length buffer \<noteq> 78 then Inl InvalidLength
          else let version = readUInt32BE buffer 0
          in if version \<noteq> privateKeyPrefix (CATAPULT env)
                \<and> version \<noteq> publicKeyPrefix (CATAPULT env) then Inl InvalidVersion
          else let depth = readUInt8 buffer 4;
                   parentFingerprint = readUInt32BE buffer 5
          in if depth = 0 \<and> parentFingerprint \<noteq> 0 then Inl InvalidMasterNode
          else let index = readUInt32BE buffer 9
          in if depth = 0 \<and> index \<noteq> 0 then Inl InvalidMasterNode
          else let chainCode = slice buffer 13 45
          in if version = privateKeyPrefix (CATAPULT env) then
               (if readUInt8 buffer 45 \<noteq> 0 then Inl InvalidPrivateKeyMarker
                else let k = slice buffer 46 78
                     in Inr (new_node st
                          (NodeEd25519 (Some k) None chainCode net depth index parentFingerprint)))
             else
               (let (X, st1) = new_buffer st (slice buffer 45 78)
                in Inr (new_node st1
                     (NodeEd25519 None (Some X) chainCode net depth index parentFingerprint))))"

subsection \<open>Derivation paths\<close>

text \<open>
  \<open>isValidPath\<close> matches the path against a regular expression anchored at both ends.
  The expression is kept as data and matched by derivatives.
\<close>

datatype rexp = Zero | One | Cls "char list" | Alt rexp rexp | Seq rexp rexp | Star rexp

fun nullable :: "rexp \<Rightarrow> bool" where
  "nullable Zero = False"
| "nullable One = True"
| "nullable (Cls cs) = False"
| "nullable (Alt r s) = (nullable r \<or> nullable s)"
| "nullable (Seq r s) = (nullable r \<and> nullable s)"
| "nullable (Star r) = True"

fun deriv :: "char \<Rightarrow> rexp \<Rightarrow> rexp" where
  "deriv c Zero = Zero"
| "deriv c One = Zero"
| "deriv c (Cls cs) = (if c \<in> set cs then One else Zero)"
| "deriv c (Alt r s) = Alt (deriv c r) (deriv c s)"
| "deriv c (Seq r s) =
     (if nullable r then Alt (Seq (deriv c r) s) (deriv c s) else Seq (deriv c r) s)"
| "deriv c (Star r) = Seq (deriv c r) (Star r)"

fun matches :: "rexp \<Rightarrow> string \<Rightarrow> bool" where
  "matches r [] = nullable r"
| "matches r (c # cs) = matches (deriv c r) cs"

definition Opt :: "rexp \<Rightarrow> rexp" where
  "Opt r = Alt r One"

definition Plus :: "rexp \<Rightarrow> rexp" where
  "Plus r = Seq r (Star r)"

definition digit :: rexp where
  "digit = Cls ''0123456789''"

definition apostrophe :: char where
  "apostrophe = CHR 0x27"

text \<open>The expression \<^verbatim>\<open>^(m\/)?(\d+'?\/)*\d+'?$\<close>.\<close>

definition path_rexp :: rexp where
  "path_rexp =
     Seq (Opt (Seq (Cls ''m'') (Cls ''/'')))
      (Seq (Star (Seq (Plus digit) (Seq (Opt (Cls [apostrophe])) (Cls ''/''))))
        (Seq (Plus digit) (Opt (Cls [apostrophe]))))"

definition isValidPath :: "string \<Rightarrow> bool" where
  "isValidPath path = matches path_rexp path"

text \<open>\<open>path.split('/')\<close>: never empty; the empty string gives one empty piece.\<close>

fun split_on :: "char \<Rightarrow> string \<Rightarrow> string list" where
  "split_on c [] = [[]]"
| "split_on c (x # xs) =
     (if x = c then [] # split_on c xs
      else (x # hd (split_on c xs)) # tl (split_on c xs))"

text \<open>
  \<open>parseInt(s, 10)\<close> on the pieces of a valid path, which start with a digit: the value
  of the leading run of decimal digits.
\<close>

definition is_digit :: "char \<Rightarrow> bool" where
  "is_digit c = (c \<in> set ''0123456789'')"

definition parseInt :: "string \<Rightarrow> int" where
  "parseInt s = foldl (\<lambda>acc c. 10 * acc + (of_char c - 48)) 0 (takeWhile is_digit s)"

text \<open>
  The callback of \<open>reduce\<close>. An exception thrown by one step ends the whole reduction,
  so an error is carried through the remaining pieces unchanged.
\<close>

definition derive_step ::
  "externals \<Rightarrow> error + (nid \<times> state) \<Rightarrow> string \<Rightarrow> error + (nid \<times> state)" where
  "derive_step env acc indexStr =
     (case acc of
        Inl e \<Rightarrow> Inl e
      | Inr (prevHd, st) \<Rightarrow>
          if indexStr \<noteq> [] \<and> last indexStr = apostrophe
          then deriveHardened env st prevHd (parseInt (butlast indexStr))
          else derive env st prevHd (parseInt indexStr))"

definition derivePath :: "externals \<Rightarrow> state \<Rightarrow> nid \<Rightarrow> string \<Rightarrow> error + (nid \<times> state)" where
  "derivePath env st this path =
     (if \<not> isValidPath path then Inl InvalidPath
      else let splitPath = split_on CHR ''/'' path
      in if hd splitPath = ''m'' \<and> node_PARENT_FINGERPRINT (nodes st ! this) \<noteq> 0
         then Inl ExpectedMasterNode
         else let splitPath = (if hd splitPath = ''m'' then tl splitPath else splitPath)
              in foldl (derive_step env) (Inr (this, st)) splitPath)"

subsection \<open>Sample collaborators and states\<close>

text \<open>
  Stand-ins for the imported libraries, to evaluate the definitions on concrete inputs.
  The theorems below hold for every choice of collaborators. The sample curve addition
  throws.
\<close>

definition sample_env :: externals where
  "sample_env =
     \<lparr>createHmac_sha512 = (\<lambda>key msg. take 64 (rev msg @ key @ replicate 64 7)),
      extractPublicKey = (\<lambda>d. case d of None \<Rightarrow> None | Some k \<Rightarrow> Some (map (\<lambda>b. b + 1) k)),
      nacl_add = (\<lambda>p q. None),
      bs58check_encode = map (\<lambda>b. char_of (unat b)),
      bs58check_decode = (\<lambda>s. Some (map (of_char :: char \<Rightarrow> byte) s)),
      CATAPULT = \<lparr>privateKeyPrefix = 0x0488ADE4, publicKeyPrefix = 0x0488B21E\<rparr>\<rparr>"


definition empty_state :: state where
  "empty_state = \<lparr>nodes = [], bufs = []\<rparr>"

definition private_state :: state where
  "private_state =
     \<lparr>nodes = [NodeEd25519 (Some (replicate 32 1)) None (replicate 32 2)
                 (CATAPULT sample_env) 0 0 0],
      bufs = []\<rparr>"

definition public_state :: state where
  "public_state =
     \<lparr>nodes = [NodeEd25519 None (Some 0) (replicate 32 2) (CATAPULT sample_env) 0 0 0],
      bufs = [replicate 32 3]\<rparr>"

definition public33_state :: state where
  "public33_state =
     \<lparr>nodes = [NodeEd25519 None (Some 0) (replicate 32 2) (CATAPULT sample_env) 3 7 9],
      bufs = [replicate 33 3]\<rparr>"

definition sample_junk :: buffer where
  "sample_junk = replicate 78 170"

definition payload_private :: buffer where
  "payload_private =
     [0x04, 0x88, 0xAD, 0xE4, 0, 0, 0, 0, 0, 0, 0, 0, 0] @ replicate 32 2 @ [0] @ replicate 32 1"

definition payload_public :: buffer where
  "payload_public =
     [0x04, 0x88, 0xB2, 0x1E, 3, 0, 0, 0, 9, 0, 0, 0, 7] @ replicate 32 2 @ replicate 33 5"

definition payload_short :: buffer where
  "payload_short = butlast payload_private"

definition payload_bad_version :: buffer where
  "payload_bad_version = payload_private[0 := 0]"

definition payload_bad_master :: buffer where
  "payload_bad_master = payload_private[8 := 1]"

definition payload_bad_marker :: buffer where
  "payload_bad_marker = payload_private[45 := 1]"

subsection \<open>Notions named in the properties\<close>

text \<open>The bytes of a node's public key, when it is set.\<close>

definition publicKey_bytes :: "state \<Rightarrow> nid \<Rightarrow> buffer option" where
  "publicKey_bytes st n =
     (case node_Q (nodes st ! n) of None \<Rightarrow> None | Some q \<Rightarrow> Some (bufs st ! q))"

text \<open>
  Immutability as the specification words it. A node \<open>n'\<close> keeps a node \<open>n\<close> when
  every field is the same, except that a public key that was not set may have been set
  (the one-time memoization). A store \<open>st'\<close> keeps a store \<open>st\<close> when every node of \<open>st\<close>
  is kept and every Buffer of \<open>st\<close> holds the same bytes; new nodes and Buffers may
  have been added.
\<close>

definition keeps :: "Node \<Rightarrow> Node \<Rightarrow> bool" where
  "keeps n n' =
     (n'\<lparr>node_Q := node_Q n\<rparr> = n \<and> (node_Q n = None \<or> node_Q n' = node_Q n))"

definition frame :: "state \<Rightarrow> state \<Rightarrow> bool" where
  "frame st st' =
     (length (nodes st) \<le> length (nodes st') \<and>
      list_all2 keeps (nodes st) (take (length (nodes st)) (nodes st')) \<and>
      take (length (bufs st)) (bufs st') = bufs st)"

text \<open>
  The path resolver as the specification words it: the segments that remain after an
  optional root \<open>m\<close> are applied one after the other, a segment ending in an apostrophe
  through \<open>deriveHardened\<close> and any other through \<open>derive\<close>, each to the node the previous
  one returned, and the first failure is the result.
\<close>

definition path_segments :: "string \<Rightarrow> string list" where
  "path_segments path =
     (if hd (split_on CHR ''/'' path) = ''m'' then tl (split_on CHR ''/'' path)
      else split_on CHR ''/'' path)"

fun derive_segments ::
  "externals \<Rightarrow> nid \<Rightarrow> state \<Rightarrow> string list \<Rightarrow> error + (nid \<times> state)" where
  "derive_segments env this st [] = Inr (this, st)"
| "derive_segments env this st (seg # segs) =
     (case (if seg \<noteq> [] \<and> last seg = apostrophe
            then deriveHardened env st this (parseInt (butlast seg))
            else derive env st this (parseInt seg)) of
        Inl e \<Rightarrow> Inl e
      | Inr (child, st1) \<Rightarrow> derive_segments env child st1 segs)"


section \<open>Properties\<close>

subsection \<open>Auxiliary facts\<close>

declare CKDPub.simps [simp del]

lemma length_uint32BE [simp]: "length (uint32BE v) = 4"
  by (simp add: uint32BE_def)

lemma length_allocUnsafe [simp]: "length (allocUnsafe n junk) = n"
  by (simp add: allocUnsafe_def)

lemma indexBuffer_eq:
  "writeUInt32BE (allocUnsafe 4 junk) index 0 =
     (if 0 \<le> index \<and> index < 2 ^ 32 then Inr (uint32BE index) else Inl RangeError)"
  by (simp add: writeUInt32BE_def)

lemma node_Q_update_same: "node_Q n = v \<Longrightarrow> n\<lparr>node_Q := v\<rparr> = n"
  by (cases n) simp


lemma publicKey_effect:
  assumes "this < length (nodes st)" and "publicKey env st this = Inr (q, st1)"
  shows "nodes st1 = (nodes st)[this := (nodes st ! this)\<lparr>node_Q := Some q\<rparr>]"
    and "\<forall>a<length (bufs st). bufs st1 ! a = bufs st ! a"
    and "length (bufs st) \<le> length (bufs st1)"
  using assms
  by (auto simp: publicKey_def new_buffer_def nth_append node_Q_update_same
           split: option.splits)

lemma publicKey_errors: "publicKey env st this = Inl e \<Longrightarrow> e = CollaboratorError"
  by (auto simp: publicKey_def new_buffer_def split: option.splits)

text \<open>The results of the two derivation functions, written out.\<close>

lemma CKDPriv_result:
  "CKDPriv env st parent index =
     (if \<not> (0 \<le> index \<and> index < 2 ^ 32) then Inl RangeError
      else case node_D (nodes st ! parent) of
             None \<Rightarrow> Inl MissingPrivateKey
           | Some d \<Rightarrow>
               Inr (length (nodes st),
                    st\<lparr>nodes := nodes st @
                      [NodeEd25519
                         (Some (take 32 (createHmac_sha512 env (chainCode (nodes st ! parent))
                                   (0 # d @ uint32BE index))))
                         None
                         (drop 32 (createHmac_sha512 env (chainCode (nodes st ! parent))
                                   (0 # d @ uint32BE index)))
                         (CATAPULT env) 0 0 0]\<rparr>))"
  by (simp add: CKDPriv_def indexBuffer_eq privateKey_def new_node_def slice_def Let_def
           split: option.splits)

lemma CKDPub_result:
  "CKDPub env st parent index =
     (if \<not> (0 \<le> index \<and> index < 2 ^ 32) then Inl RangeError
      else case publicKey env st parent of
             Inl e \<Rightarrow> Inl e
           | Inr (pk, st1) \<Rightarrow>
               (case publicKey env st1 parent of
                  Inl e \<Rightarrow> Inl e
                | Inr (q, st2) \<Rightarrow>
                    (case nacl_add env (bufs st2 ! q)
                            (take 32 (createHmac_sha512 env (chainCode (nodes st1 ! parent))
                               (bufs st1 ! pk @ uint32BE index))) of
                       None \<Rightarrow> Inl CollaboratorError
                     | Some written \<Rightarrow>
                         Inr (length (nodes st2),
                              st2\<lparr>bufs := (bufs st2)[q := written],
                                  nodes := nodes st2 @
                                    [NodeEd25519 None (Some q)
                                       (drop 32 (createHmac_sha512 env
                                          (chainCode (nodes st1 ! parent))
                                          (bufs st1 ! pk @ uint32BE index)))
                                       (CATAPULT env) 0 0 0]\<rparr>))))"
  by (subst CKDPub.simps)
     (simp add: indexBuffer_eq new_node_def slice_def Let_def
           split: sum.splits prod.splits option.splits)

lemma CKDPriv_not_overflow: "CKDPriv env st this index \<noteq> Inl IndexOverflow"
  by (simp add: CKDPriv_result split: option.splits)

lemma CKDPub_not_overflow: "CKDPub env st this index \<noteq> Inl IndexOverflow"
  by (auto simp: CKDPub_result split: sum.splits option.splits dest: publicKey_errors)

lemma derive_not_overflow: "derive env st this index \<noteq> Inl IndexOverflow"
  by (simp add: derive_def Let_def CKDPriv_not_overflow CKDPub_not_overflow)

lemma publicKey_set:
  "node_Q (nodes st ! this) = Some q \<Longrightarrow> publicKey env st this = Inr (q, st)"
  by (simp add: publicKey_def)


lemma sample_codec:
  "bs58check_decode sample_env (bs58check_encode sample_env b) = Some b"
proof -
  have "of_char (char_of (unat x)) = x" for x :: byte
  proof -
    have a: "(of_char (char_of (unat x)) :: nat) = unat x mod 256"
      by (rule of_char_of)
    have lt: "unat x < 256" using unsigned_less [of x] by simp
    have "(of_char (char_of (unat x)) :: byte) = of_nat (of_char (char_of (unat x)) :: nat)"
      by (rule of_nat_of_char [symmetric])
    also have "\<dots> = of_nat (unat x mod 256)" by (simp only: a)
    also have "\<dots> = x" using lt by simp
    finally show ?thesis .
  qed
  then have "map (of_char :: char \<Rightarrow> byte) (map (\<lambda>b. char_of (unat b)) b) = b"
    by (simp add: map_idI)
  then show ?thesis by (simp add: sample_env_def)
qed

text \<open>Reading and writing at fixed offsets of a buffer given as a concatenation.\<close>

lemma uint32BE_value:
  assumes "0 \<le> v" and "v < 2 ^ 32"
  shows "uint (word_of_int (v div 2 ^ 24) :: byte) * 2 ^ 24
         + uint (word_of_int (v div 2 ^ 16) :: byte) * 2 ^ 16
         + uint (word_of_int (v div 2 ^ 8) :: byte) * 2 ^ 8
         + uint (word_of_int v :: byte) = v"
proof -
  define a where "a = v div 256"
  define b where "b = a div 256"
  define c where "c = b div 256"
  have va: "v = a * 256 + v mod 256" by (simp add: a_def)
  have ab: "a = b * 256 + a mod 256" by (simp add: b_def)
  have bc: "b = c * 256 + b mod 256" by (simp add: c_def)
  have b': "v div 2 ^ 16 = b" by (simp add: a_def b_def zdiv_zmult2_eq)
  have c': "v div 2 ^ 24 = c" by (simp add: a_def b_def c_def zdiv_zmult2_eq)
  have a': "v div 2 ^ 8 = a" by (simp add: a_def)
  have c0: "0 \<le> c" using assms by (simp add: a_def b_def c_def)
  have c1: "c < 256" using assms c' by simp
  have cm: "c mod 256 = c" using c0 c1 by simp
  have "uint (word_of_int (v div 2 ^ 24) :: byte) = c"
    using c' cm by (simp add: uint_word_of_int)
  moreover have "uint (word_of_int (v div 2 ^ 16) :: byte) = b mod 256"
    using b' by (simp add: uint_word_of_int)
  moreover have "uint (word_of_int (v div 2 ^ 8) :: byte) = a mod 256"
    using a' by (simp add: uint_word_of_int)
  moreover have "uint (word_of_int v :: byte) = v mod 256"
    by (simp add: uint_word_of_int)
  ultimately show ?thesis using va ab bc by simp
qed

lemma readUInt32BE_append:
  assumes "length xs = off" and "0 \<le> v" and "v < 2 ^ 32"
  shows "readUInt32BE (xs @ uint32BE v @ ys) off = v"
proof -
  have n: "(xs @ uint32BE v @ ys) ! (off + k) = (uint32BE v @ ys) ! k" for k
    using assms(1) by (simp add: nth_append)
  have "readUInt32BE (xs @ uint32BE v @ ys) off =
          uint ((uint32BE v @ ys) ! 0) * 2 ^ 24 + uint ((uint32BE v @ ys) ! 1) * 2 ^ 16
          + uint ((uint32BE v @ ys) ! 2) * 2 ^ 8 + uint ((uint32BE v @ ys) ! 3)"
    unfolding readUInt32BE_def using n [of 0] n [of 1] n [of 2] n [of 3] by simp
  also have "\<dots> = v"
    using uint32BE_value [OF assms(2,3)] by (simp add: uint32BE_def)
  finally show ?thesis .
qed

lemma readUInt8_append:
  assumes "length xs = off"
  shows "readUInt8 (xs @ y # ys) off = uint y"
  using assms [symmetric] by (simp add: readUInt8_def)

lemma slice_append:
  assumes "length xs = i" and "length c = j - i"
  shows "slice (xs @ c @ ys) i j = c"
  using assms by (simp add: slice_def)

lemma writeUInt32BE_append:
  assumes "length xs = off" and "length ys = 4" and "0 \<le> v" and "v < 2 ^ 32"
  shows "writeUInt32BE (xs @ ys @ zs) v off = Inr (xs @ uint32BE v @ zs)"
  using assms by (simp add: writeUInt32BE_def)

lemma writeUInt8_append:
  assumes "length xs = off" and "0 \<le> v" and "v < 2 ^ 8"
  shows "writeUInt8 (xs @ y # zs) v off = Inr (xs @ word_of_int v # zs)"
  using assms(2,3) assms(1) [symmetric] by (simp add: writeUInt8_def)

lemma copy_append:
  assumes "length xs = off" and "length ys = length src"
  shows "copy src (xs @ ys @ zs) off = xs @ src @ zs"
  using assms by (simp add: copy_def Let_def)

lemma copy_short:
  assumes "length xs = off" and "length src \<le> length ys"
  shows "copy src (xs @ ys) off = xs @ src @ drop (length src) ys"
  using assms by (simp add: copy_def Let_def min_def)

lemma chunks_78:
  assumes "length (b :: buffer) = 78"
  obtains c1 c2 c3 c4 c5 c6 c7 where
    "b = c1 @ c2 # c3 @ c4 @ c5 @ c6 # c7"
    "length c1 = 4" "length c3 = 4" "length c4 = 4" "length c5 = 32" "length c7 = 32"
    "c6 # c7 = drop 45 b"
proof -
  define r1 where "r1 = drop 4 b"
  define r2 where "r2 = drop 1 r1"
  define r3 where "r3 = drop 4 r2"
  define r4 where "r4 = drop 4 r3"
  define r5 where "r5 = drop 32 r4"
  define r6 where "r6 = drop 1 r5"
  have l: "length r1 = 74" "length r2 = 73" "length r3 = 69" "length r4 = 65"
          "length r5 = 33" "length r6 = 32"
    using assms by (simp_all add: r1_def r2_def r3_def r4_def r5_def r6_def)
  have e1: "r1 = hd r1 # r2" using l(1) unfolding r2_def by (cases r1) simp_all
  have e5: "r5 = hd r5 # r6" using l(5) unfolding r6_def by (cases r5) simp_all
  have "b = take 4 b @ r1" by (simp add: r1_def)
  also have "r1 = hd r1 # r2" by (rule e1)
  also have "r2 = take 4 r2 @ r3" by (simp add: r3_def)
  also have "r3 = take 4 r3 @ r4" by (simp add: r4_def)
  also have "r4 = take 32 r4 @ r5" by (simp add: r5_def)
  also have "r5 = hd r5 # r6" by (rule e5)
  finally have "b = take 4 b @ hd r1 # take 4 r2 @ take 4 r3 @ take 32 r4 @ hd r5 # r6" .
  moreover have "length (take 4 b) = 4" "length (take 4 r2) = 4" "length (take 4 r3) = 4"
     "length (take 32 r4) = 32" "length r6 = 32"
    using assms l by simp_all
  moreover have "hd r5 # r6 = drop 45 b"
    using e5 by (simp add: r1_def r2_def r3_def r4_def r5_def)
  ultimately show thesis by (rule that)
qed

lemma header_writes:
  assumes v: "0 \<le> v" "v < 2 ^ 32" and d: "0 \<le> dep" "dep < 2 ^ 8"
    and p: "0 \<le> pfp" "pfp < 2 ^ 32" and i: "0 \<le> idx" "idx < 2 ^ 32"
    and cc: "length cc = 32"
  obtains c2 c3 c4 c5 c6 c7 where "length c7 = 32"
    and "c6 # c7 = drop 45 (allocUnsafe 78 junk)"
    and "writeUInt32BE (allocUnsafe 78 junk) v 0 = Inr (uint32BE v @ c2 # c3 @ c4 @ c5 @ c6 # c7)"
    and "writeUInt8 (uint32BE v @ c2 # c3 @ c4 @ c5 @ c6 # c7) dep 4
           = Inr (uint32BE v @ word_of_int dep # c3 @ c4 @ c5 @ c6 # c7)"
    and "writeUInt32BE (uint32BE v @ word_of_int dep # c3 @ c4 @ c5 @ c6 # c7) pfp 5
           = Inr (uint32BE v @ word_of_int dep # uint32BE pfp @ c4 @ c5 @ c6 # c7)"
    and "writeUInt32BE (uint32BE v @ word_of_int dep # uint32BE pfp @ c4 @ c5 @ c6 # c7) idx 9
           = Inr (uint32BE v @ word_of_int dep # uint32BE pfp @ uint32BE idx @ c5 @ c6 # c7)"
    and "copy cc (uint32BE v @ word_of_int dep # uint32BE pfp @ uint32BE idx @ c5 @ c6 # c7) 13
           = uint32BE v @ word_of_int dep # uint32BE pfp @ uint32BE idx @ cc @ c6 # c7"
proof -
  obtain c1 c2 c3 c4 c5 c6 c7 where
    b: "allocUnsafe 78 junk = c1 @ c2 # c3 @ c4 @ c5 @ c6 # c7"
    and l: "length c1 = 4" "length c3 = 4" "length c4 = 4" "length c5 = 32" "length c7 = 32"
    and t: "c6 # c7 = drop 45 (allocUnsafe 78 junk)"
    using chunks_78 [of "allocUnsafe 78 junk"] length_allocUnsafe [of 78 junk] by blast
  let ?V = "uint32BE v" and ?D = "word_of_int dep :: byte"
  let ?P = "uint32BE pfp" and ?I = "uint32BE idx"
  have w1: "writeUInt32BE (allocUnsafe 78 junk) v 0 = Inr (?V @ c2 # c3 @ c4 @ c5 @ c6 # c7)"
    using writeUInt32BE_append [of "[]" 0 c1 v "c2 # c3 @ c4 @ c5 @ c6 # c7"] l v b by simp
  have w2: "writeUInt8 (?V @ c2 # c3 @ c4 @ c5 @ c6 # c7) dep 4
              = Inr (?V @ ?D # c3 @ c4 @ c5 @ c6 # c7)"
    using writeUInt8_append [of ?V 4 dep c2 "c3 @ c4 @ c5 @ c6 # c7"] d by simp
  have w3: "writeUInt32BE (?V @ ?D # c3 @ c4 @ c5 @ c6 # c7) pfp 5
              = Inr (?V @ ?D # ?P @ c4 @ c5 @ c6 # c7)"
    using writeUInt32BE_append [of "?V @ [?D]" 5 c3 pfp "c4 @ c5 @ c6 # c7"] l p by simp
  have w4: "writeUInt32BE (?V @ ?D # ?P @ c4 @ c5 @ c6 # c7) idx 9
              = Inr (?V @ ?D # ?P @ ?I @ c5 @ c6 # c7)"
    using writeUInt32BE_append [of "?V @ ?D # ?P" 9 c4 idx "c5 @ c6 # c7"] l i by simp
  have w5: "copy cc (?V @ ?D # ?P @ ?I @ c5 @ c6 # c7) 13 = ?V @ ?D # ?P @ ?I @ cc @ c6 # c7"
    using copy_append [of "?V @ ?D # ?P @ ?I" 13 c5 cc "c6 # c7"] l cc by simp
  from l(5) t w1 w2 w3 w4 w5 show thesis by (rule that)
qed

lemma toBase58_private:
  assumes "node_D (nodes st ! this) = Some d" and "length d = 32"
    and "length (chainCode (nodes st ! this)) = 32"
    and "0 \<le> privateKeyPrefix (CATAPULT env)" "privateKeyPrefix (CATAPULT env) < 2 ^ 32"
    and "0 \<le> node_DEPTH (nodes st ! this)" "node_DEPTH (nodes st ! this) < 2 ^ 8"
    and "0 \<le> node_PARENT_FINGERPRINT (nodes st ! this)"
        "node_PARENT_FINGERPRINT (nodes st ! this) < 2 ^ 32"
    and "0 \<le> node_INDEX (nodes st ! this)" "node_INDEX (nodes st ! this) < 2 ^ 32"
  shows "toBase58 env junk st this =
           Inr (bs58check_encode env
                  (uint32BE (privateKeyPrefix (CATAPULT env))
                   @ word_of_int (node_DEPTH (nodes st ! this))
                   # uint32BE (node_PARENT_FINGERPRINT (nodes st ! this))
                   @ uint32BE (node_INDEX (nodes st ! this))
                   @ chainCode (nodes st ! this) @ 0 # d), st)"
proof -
  let ?n = "nodes st ! this"
  let ?H = "uint32BE (privateKeyPrefix (CATAPULT env)) @ word_of_int (node_DEPTH ?n)
            # uint32BE (node_PARENT_FINGERPRINT ?n) @ uint32BE (node_INDEX ?n)"
  obtain c2 c3 c4 c5 c6 c7 where l: "length c7 = 32"
    and w1: "writeUInt32BE (allocUnsafe 78 junk) (privateKeyPrefix (CATAPULT env)) 0
               = Inr (uint32BE (privateKeyPrefix (CATAPULT env)) @ c2 # c3 @ c4 @ c5 @ c6 # c7)"
    and w2: "writeUInt8 (uint32BE (privateKeyPrefix (CATAPULT env)) @ c2 # c3 @ c4 @ c5 @ c6 # c7) (node_DEPTH ?n) 4
               = Inr (uint32BE (privateKeyPrefix (CATAPULT env)) @ word_of_int (node_DEPTH ?n) # c3 @ c4 @ c5 @ c6 # c7)"
    and w3: "writeUInt32BE (uint32BE (privateKeyPrefix (CATAPULT env)) @ word_of_int (node_DEPTH ?n) # c3 @ c4 @ c5 @ c6 # c7) (node_PARENT_FINGERPRINT ?n) 5
               = Inr (uint32BE (privateKeyPrefix (CATAPULT env)) @ word_of_int (node_DEPTH ?n) # uint32BE (node_PARENT_FINGERPRINT ?n) @ c4 @ c5 @ c6 # c7)"
    and w4: "writeUInt32BE (uint32BE (privateKeyPrefix (CATAPULT env)) @ word_of_int (node_DEPTH ?n) # uint32BE (node_PARENT_FINGERPRINT ?n) @ c4 @ c5 @ c6 # c7) (node_INDEX ?n) 9
               = Inr (uint32BE (privateKeyPrefix (CATAPULT env)) @ word_of_int (node_DEPTH ?n) # uint32BE (node_PARENT_FINGERPRINT ?n) @ uint32BE (node_INDEX ?n) @ c5 @ c6 # c7)"
    and w5: "copy (chainCode ?n) (uint32BE (privateKeyPrefix (CATAPULT env)) @ word_of_int (node_DEPTH ?n) # uint32BE (node_PARENT_FINGERPRINT ?n) @ uint32BE (node_INDEX ?n) @ c5 @ c6 # c7) 13
               = uint32BE (privateKeyPrefix (CATAPULT env)) @ word_of_int (node_DEPTH ?n) # uint32BE (node_PARENT_FINGERPRINT ?n) @ uint32BE (node_INDEX ?n) @ chainCode ?n @ c6 # c7"
    by (rule header_writes [OF assms(4-11) assms(3), of junk]) (rule that, assumption+)
  let ?V = "uint32BE (privateKeyPrefix (CATAPULT env))"
  let ?D = "word_of_int (node_DEPTH ?n) :: byte"
  let ?P = "uint32BE (node_PARENT_FINGERPRINT ?n)" and ?I = "uint32BE (node_INDEX ?n)"
  have w6: "writeUInt8 (?V @ ?D # ?P @ ?I @ chainCode ?n @ c6 # c7) 0 45
              = Inr (?V @ ?D # ?P @ ?I @ chainCode ?n @ 0 # c7)"
    using writeUInt8_append [of "?V @ ?D # ?P @ ?I @ chainCode ?n" 45 0 c6 c7] assms(3) by simp
  have w7: "copy d (?V @ ?D # ?P @ ?I @ chainCode ?n @ 0 # c7) 46
              = ?V @ ?D # ?P @ ?I @ chainCode ?n @ 0 # d"
    using copy_append [of "?V @ ?D # ?P @ ?I @ chainCode ?n @ [0]" 46 c7 d "[]"] assms(2,3) l
    by simp
  show ?thesis
    unfolding toBase58_def Let_def
    using assms(1) by (simp add: isNeutered_def privateKey_def w1 w2 w3 w4 w5 w6 w7)
qed

lemma toBase58_public:
  assumes "node_D (nodes st ! this) = None" and "node_Q (nodes st ! this) = Some q"
    and "length (bufs st ! q) = 33"
    and "length (chainCode (nodes st ! this)) = 32"
    and "0 \<le> publicKeyPrefix (CATAPULT env)" "publicKeyPrefix (CATAPULT env) < 2 ^ 32"
    and "0 \<le> node_DEPTH (nodes st ! this)" "node_DEPTH (nodes st ! this) < 2 ^ 8"
    and "0 \<le> node_PARENT_FINGERPRINT (nodes st ! this)"
        "node_PARENT_FINGERPRINT (nodes st ! this) < 2 ^ 32"
    and "0 \<le> node_INDEX (nodes st ! this)" "node_INDEX (nodes st ! this) < 2 ^ 32"
  shows "toBase58 env junk st this =
           Inr (bs58check_encode env
                  (uint32BE (publicKeyPrefix (CATAPULT env))
                   @ word_of_int (node_DEPTH (nodes st ! this))
                   # uint32BE (node_PARENT_FINGERPRINT (nodes st ! this))
                   @ uint32BE (node_INDEX (nodes st ! this))
                   @ chainCode (nodes st ! this) @ bufs st ! q), st)"
proof -
  let ?n = "nodes st ! this"
  let ?H = "uint32BE (publicKeyPrefix (CATAPULT env)) @ word_of_int (node_DEPTH ?n)
            # uint32BE (node_PARENT_FINGERPRINT ?n) @ uint32BE (node_INDEX ?n)"
  obtain c2 c3 c4 c5 c6 c7 where l: "length c7 = 32"
    and w1: "writeUInt32BE (allocUnsafe 78 junk) (publicKeyPrefix (CATAPULT env)) 0
               = Inr (uint32BE (publicKeyPrefix (CATAPULT env)) @ c2 # c3 @ c4 @ c5 @ c6 # c7)"
    and w2: "writeUInt8 (uint32BE (publicKeyPrefix (CATAPULT env)) @ c2 # c3 @ c4 @ c5 @ c6 # c7) (node_DEPTH ?n) 4
               = Inr (uint32BE (publicKeyPrefix (CATAPULT env)) @ word_of_int (node_DEPTH ?n) # c3 @ c4 @ c5 @ c6 # c7)"
    and w3: "writeUInt32BE (uint32BE (publicKeyPrefix (CATAPULT env)) @ word_of_int (node_DEPTH ?n) # c3 @ c4 @ c5 @ c6 # c7) (node_PARENT_FINGERPRINT ?n) 5
               = Inr (uint32BE (publicKeyPrefix (CATAPULT env)) @ word_of_int (node_DEPTH ?n) # uint32BE (node_PARENT_FINGERPRINT ?n) @ c4 @ c5 @ c6 # c7)"
    and w4: "writeUInt32BE (uint32BE (publicKeyPrefix (CATAPULT env)) @ word_of_int (node_DEPTH ?n) # uint32BE (node_PARENT_FINGERPRINT ?n) @ c4 @ c5 @ c6 # c7) (node_INDEX ?n) 9
               = Inr (uint32BE (publicKeyPrefix (CATAPULT env)) @ word_of_int (node_DEPTH ?n) # uint32BE (node_PARENT_FINGERPRINT ?n) @ uint32BE (node_INDEX ?n) @ c5 @ c6 # c7)"
    and w5: "copy (chainCode ?n) (uint32BE (publicKeyPrefix (CATAPULT env)) @ word_of_int (node_DEPTH ?n) # uint32BE (node_PARENT_FINGERPRINT ?n) @ uint32BE (node_INDEX ?n) @ c5 @ c6 # c7) 13
               = uint32BE (publicKeyPrefix (CATAPULT env)) @ word_of_int (node_DEPTH ?n) # uint32BE (node_PARENT_FINGERPRINT ?n) @ uint32BE (node_INDEX ?n) @ chainCode ?n @ c6 # c7"
    by (rule header_writes [OF assms(5-12) assms(4), of junk]) (rule that, assumption+)
  let ?V = "uint32BE (publicKeyPrefix (CATAPULT env))"
  let ?D = "word_of_int (node_DEPTH ?n) :: byte"
  let ?P = "uint32BE (node_PARENT_FINGERPRINT ?n)" and ?I = "uint32BE (node_INDEX ?n)"
  have w7: "copy (bufs st ! q) (?V @ ?D # ?P @ ?I @ chainCode ?n @ c6 # c7) 45
              = ?V @ ?D # ?P @ ?I @ chainCode ?n @ bufs st ! q"
    using copy_append [of "?V @ ?D # ?P @ ?I @ chainCode ?n" 45 "c6 # c7" "bufs st ! q" "[]"]
      assms(3,4) l
    by simp
  show ?thesis
    unfolding toBase58_def Let_def
    using assms(1,2) by (simp add: isNeutered_def publicKey_def w1 w2 w3 w4 w5 w7)
qed

lemma toBase58_public32:
  assumes "node_D (nodes st ! this) = None" and "node_Q (nodes st ! this) = Some q"
    and "length (bufs st ! q) = 32"
    and "length (chainCode (nodes st ! this)) = 32"
    and "0 \<le> publicKeyPrefix (CATAPULT env)" "publicKeyPrefix (CATAPULT env) < 2 ^ 32"
    and "0 \<le> node_DEPTH (nodes st ! this)" "node_DEPTH (nodes st ! this) < 2 ^ 8"
    and "0 \<le> node_PARENT_FINGERPRINT (nodes st ! this)"
        "node_PARENT_FINGERPRINT (nodes st ! this) < 2 ^ 32"
    and "0 \<le> node_INDEX (nodes st ! this)" "node_INDEX (nodes st ! this) < 2 ^ 32"
  shows "toBase58 env junk st this =
           Inr (bs58check_encode env
                  (uint32BE (publicKeyPrefix (CATAPULT env))
                   @ word_of_int (node_DEPTH (nodes st ! this))
                   # uint32BE (node_PARENT_FINGERPRINT (nodes st ! this))
                   @ uint32BE (node_INDEX (nodes st ! this))
                   @ chainCode (nodes st ! this) @ bufs st ! q
                   @ [allocUnsafe 78 junk ! 77]), st)"
proof -
  let ?n = "nodes st ! this"
  let ?H = "uint32BE (publicKeyPrefix (CATAPULT env)) @ word_of_int (node_DEPTH ?n)
            # uint32BE (node_PARENT_FINGERPRINT ?n) @ uint32BE (node_INDEX ?n)"
  obtain c2 c3 c4 c5 c6 c7 where l: "length c7 = 32"
    and t: "c6 # c7 = drop 45 (allocUnsafe 78 junk)"
    and w1: "writeUInt32BE (allocUnsafe 78 junk) (publicKeyPrefix (CATAPULT env)) 0
               = Inr (uint32BE (publicKeyPrefix (CATAPULT env)) @ c2 # c3 @ c4 @ c5 @ c6 # c7)"
    and w2: "writeUInt8 (uint32BE (publicKeyPrefix (CATAPULT env)) @ c2 # c3 @ c4 @ c5 @ c6 # c7) (node_DEPTH ?n) 4
               = Inr (uint32BE (publicKeyPrefix (CATAPULT env)) @ word_of_int (node_DEPTH ?n) # c3 @ c4 @ c5 @ c6 # c7)"
    and w3: "writeUInt32BE (uint32BE (publicKeyPrefix (CATAPULT env)) @ word_of_int (node_DEPTH ?n) # c3 @ c4 @ c5 @ c6 # c7) (node_PARENT_FINGERPRINT ?n) 5
               = Inr (uint32BE (publicKeyPrefix (CATAPULT env)) @ word_of_int (node_DEPTH ?n) # uint32BE (node_PARENT_FINGERPRINT ?n) @ c4 @ c5 @ c6 # c7)"
    and w4: "writeUInt32BE (uint32BE (publicKeyPrefix (CATAPULT env)) @ word_of_int (node_DEPTH ?n) # uint32BE (node_PARENT_FINGERPRINT ?n) @ c4 @ c5 @ c6 # c7) (node_INDEX ?n) 9
               = Inr (uint32BE (publicKeyPrefix (CATAPULT env)) @ word_of_int (node_DEPTH ?n) # uint32BE (node_PARENT_FINGERPRINT ?n) @ uint32BE (node_INDEX ?n) @ c5 @ c6 # c7)"
    and w5: "copy (chainCode ?n) (uint32BE (publicKeyPrefix (CATAPULT env)) @ word_of_int (node_DEPTH ?n) # uint32BE (node_PARENT_FINGERPRINT ?n) @ uint32BE (node_INDEX ?n) @ c5 @ c6 # c7) 13
               = uint32BE (publicKeyPrefix (CATAPULT env)) @ word_of_int (node_DEPTH ?n) # uint32BE (node_PARENT_FINGERPRINT ?n) @ uint32BE (node_INDEX ?n) @ chainCode ?n @ c6 # c7"
    by (rule header_writes [OF assms(5-12) assms(4), of junk]) (rule that, assumption+)
  let ?V = "uint32BE (publicKeyPrefix (CATAPULT env))"
  let ?D = "word_of_int (node_DEPTH ?n) :: byte"
  let ?P = "uint32BE (node_PARENT_FINGERPRINT ?n)" and ?I = "uint32BE (node_INDEX ?n)"
  have "drop 32 (c6 # c7) = drop 77 (allocUnsafe 78 junk)"
    unfolding t by simp
  also have "\<dots> = [allocUnsafe 78 junk ! 77]"
    using Cons_nth_drop_Suc [of 77 "allocUnsafe 78 junk"] by simp
  finally have tail: "drop 32 (c6 # c7) = [allocUnsafe 78 junk ! 77]" .
  have w7: "copy (bufs st ! q) (?V @ ?D # ?P @ ?I @ chainCode ?n @ c6 # c7) 45
              = ?V @ ?D # ?P @ ?I @ chainCode ?n @ bufs st ! q @ [allocUnsafe 78 junk ! 77]"
    using copy_short [of "?V @ ?D # ?P @ ?I @ chainCode ?n" 45 "bufs st ! q" "c6 # c7"]
      assms(3,4) l tail
    by simp
  show ?thesis
    unfolding toBase58_def Let_def
    using assms(1,2) by (simp add: isNeutered_def publicKey_def w1 w2 w3 w4 w5 w7)
qed

lemma payload_reads:
  fixes cc key :: buffer and k0 :: byte
  assumes v: "0 \<le> v" "v < 2 ^ 32" and d: "0 \<le> dep" "dep < 2 ^ 8"
    and p: "0 \<le> pfp" "pfp < 2 ^ 32" and i: "0 \<le> idx" "idx < 2 ^ 32"
    and cc: "length cc = 32" and k: "length key = 32"
  defines "b \<equiv> uint32BE v @ word_of_int dep # uint32BE pfp @ uint32BE idx @ cc @ k0 # key"
  shows "length b = 78" and "readUInt32BE b 0 = v" and "readUInt8 b 4 = dep"
    and "readUInt32BE b 5 = pfp" and "readUInt32BE b 9 = idx" and "slice b 13 45 = cc"
    and "readUInt8 b 45 = uint k0" and "slice b 46 78 = key" and "slice b 45 78 = k0 # key"
proof -
  let ?V = "uint32BE v" and ?D = "word_of_int dep :: byte"
  let ?P = "uint32BE pfp" and ?I = "uint32BE idx"
  show "length b = 78" by (simp add: b_def cc k)
  show "readUInt32BE b 0 = v"
    using readUInt32BE_append [of "[]" 0 v "?D # ?P @ ?I @ cc @ k0 # key"] v by (simp add: b_def)
  have "uint ?D = dep" using d by (simp add: uint_word_of_int)
  then show "readUInt8 b 4 = dep"
    using readUInt8_append [of ?V 4 ?D "?P @ ?I @ cc @ k0 # key"] by (simp add: b_def)
  show "readUInt32BE b 5 = pfp"
    using readUInt32BE_append [of "?V @ [?D]" 5 pfp "?I @ cc @ k0 # key"] p by (simp add: b_def)
  show "readUInt32BE b 9 = idx"
    using readUInt32BE_append [of "?V @ ?D # ?P" 9 idx "cc @ k0 # key"] i by (simp add: b_def)
  show "slice b 13 45 = cc"
    using slice_append [of "?V @ ?D # ?P @ ?I" 13 cc 45 "k0 # key"] cc by (simp add: b_def)
  show "readUInt8 b 45 = uint k0"
    using readUInt8_append [of "?V @ ?D # ?P @ ?I @ cc" 45 k0 key] cc by (simp add: b_def)
  show "slice b 46 78 = key"
    using slice_append [of "?V @ ?D # ?P @ ?I @ cc @ [k0]" 46 key 78 "[]"] cc k
    by (simp add: b_def)
  show "slice b 45 78 = k0 # key"
    using slice_append [of "?V @ ?D # ?P @ ?I @ cc" 45 "k0 # key" 78 "[]"] cc k
    by (simp add: b_def)
qed

text \<open>The reduction of \<open>derivePath\<close> is the sequential application of the steps.\<close>

lemma foldl_derive_step_Inl: "foldl (derive_step env) (Inl e) segs = Inl e"
  by (induction segs) (simp_all add: derive_step_def)

lemma foldl_derive_step:
  "foldl (derive_step env) (Inr (this, st)) segs = derive_segments env this st segs"
proof (induction segs arbitrary: this st)
  case Nil
  show ?case by simp
next
  case (Cons seg segs)
  define r where "r = (if seg \<noteq> [] \<and> last seg = apostrophe
            then deriveHardened env st this (parseInt (butlast seg))
            else derive env st this (parseInt seg))"
  have step: "derive_step env (Inr (this, st)) seg = r"
    by (simp add: derive_step_def r_def)
  have rhs: "derive_segments env this st (seg # segs) =
               (case r of Inl e \<Rightarrow> Inl e | Inr (child, st1) \<Rightarrow> derive_segments env child st1 segs)"
    by (simp add: r_def)
  show ?case
  proof (cases r)
    case (Inl e)
    then show ?thesis by (simp only: foldl_Cons step rhs foldl_derive_step_Inl sum.case)
  next
    case (Inr p)
    obtain c st1 where p: "p = (c, st1)" by (cases p)
    from Inr p Cons.IH [of c st1] show ?thesis
      by (simp only: foldl_Cons step rhs sum.case prod.case)
  qed
qed

lemma path_m01_valid: "isValidPath (''m/0'' @ [apostrophe] @ ''/1'')"
  by code_simp

lemma path_m01_split:
  "split_on CHR ''/'' (''m/0'' @ [apostrophe] @ ''/1'') = [''m'', ''0'' @ [apostrophe], ''1'']"
  by code_simp

lemma not_apostrophe: "CHR ''1'' \<noteq> apostrophe"
  by (simp add: apostrophe_def)

lemma parseInt_0: "parseInt ''0'' = 0"
  by code_simp

lemma parseInt_1: "parseInt ''1'' = 1"
  by code_simp

lemma payload_private_reads:
  "length payload_private = 78" "readUInt32BE payload_private 0 = 0x0488ADE4"
  "readUInt8 payload_private 4 = 0" "readUInt32BE payload_private 5 = 0"
  "readUInt32BE payload_private 9 = 0" "readUInt8 payload_private 45 = 0"
  "slice payload_private 46 78 = replicate 32 1"
  by code_simp+

lemma payload_public_reads:
  "length payload_public = 78" "readUInt32BE payload_public 0 = 0x0488B21E"
  "readUInt8 payload_public 4 = 3" "slice payload_public 45 78 = replicate 33 5"
  by code_simp+

lemma payload_bad_reads:
  "length payload_short = 77"
  "length payload_bad_version = 78" "readUInt32BE payload_bad_version 0 = 0x88ADE4"
  "length payload_bad_master = 78" "readUInt32BE payload_bad_master 0 = 0x0488ADE4"
  "readUInt8 payload_bad_master 4 = 0" "readUInt32BE payload_bad_master 5 = 1"
  "length payload_bad_marker = 78" "readUInt32BE payload_bad_marker 0 = 0x0488ADE4"
  "readUInt8 payload_bad_marker 4 = 0" "readUInt32BE payload_bad_marker 5 = 0"
  "readUInt32BE payload_bad_marker 9 = 0" "readUInt8 payload_bad_marker 45 = 1"
  by code_simp+

lemma sample_prefixes:
  "privateKeyPrefix (CATAPULT sample_env) = 0x0488ADE4"
  "publicKeyPrefix (CATAPULT sample_env) = 0x0488B21E"
  by (simp_all add: sample_env_def)

lemma derive_private:
  assumes "node_D (nodes st ! this) = Some d" and "0 \<le> index" and "index < 2 ^ 32"
  shows "\<exists>st'. derive env st this index = Inr (length (nodes st), st') \<and>
           node_D (nodes st' ! length (nodes st)) \<noteq> None"
  using assms
  by (simp add: derive_def Let_def isNeutered_def CKDPriv_result NodeEd25519_def)







lemma frame_nth:
  "frame st st' =
     (length (nodes st) \<le> length (nodes st') \<and>
      (\<forall>n<length (nodes st). keeps (nodes st ! n) (nodes st' ! n)) \<and>
      length (bufs st) \<le> length (bufs st') \<and>
      (\<forall>a<length (bufs st). bufs st' ! a = bufs st ! a))"
proof -
  have n: "length (nodes st) \<le> length (nodes st') \<Longrightarrow>
        list_all2 keeps (nodes st) (take (length (nodes st)) (nodes st')) =
          (\<forall>n<length (nodes st). keeps (nodes st ! n) (nodes st' ! n))"
    by (simp add: list_all2_conv_all_nth)
  have b: "(take (length (bufs st)) (bufs st') = bufs st) =
        (length (bufs st) \<le> length (bufs st') \<and>
         (\<forall>a<length (bufs st). bufs st' ! a = bufs st ! a))"
    by (auto simp: list_eq_iff_nth_eq)
  show ?thesis unfolding frame_def b using n by auto
qed


















lemma frame_publicKey_bytes:
  assumes "frame st st'" and "n < length (nodes st)"
    and "node_Q (nodes st ! n) = Some q" and "q < length (bufs st)"
  shows "publicKey_bytes st' n = publicKey_bytes st n"
  using assms
  by (auto simp: frame_nth publicKey_bytes_def keeps_def split: option.splits)

subsection \<open>Private child derivation\<close>

text \<open>
  C1. What \<open>CKDPriv\<close> returns for a parent with a private key and a uint32 index: the
  child's private key is the first 32 bytes of the HMAC-SHA512 of
  \<open>0x00 || parent private key || index (4 bytes, big-endian)\<close> under the parent's chain
  code, its chain code is the rest of the digest, and it has no public key yet. Its depth,
  index and parent fingerprint are the constructor's defaults, 0, whatever the parent and
  the index are: they are not parent depth + 1, the index and the parent's fingerprint.
\<close>

theorem CKDPriv_child:
  assumes "node_D (nodes st ! parent) = Some d" and "0 \<le> index" and "index < 2 ^ 32"
  shows "\<exists>c st'. CKDPriv env st parent index = Inr (c, st') \<and>
           node_D (nodes st' ! c) =
             Some (take 32 (createHmac_sha512 env (chainCode (nodes st ! parent))
                              (0 # d @ uint32BE index))) \<and>
           chainCode (nodes st' ! c) =
             drop 32 (createHmac_sha512 env (chainCode (nodes st ! parent))
                        (0 # d @ uint32BE index)) \<and>
           node_Q (nodes st' ! c) = None \<and>
           node_DEPTH (nodes st' ! c) = 0 \<and>
           node_INDEX (nodes st' ! c) = 0 \<and>
           node_PARENT_FINGERPRINT (nodes st' ! c) = 0"
  using assms by (simp add: CKDPriv_result NodeEd25519_def)

theorem CKDPriv_child_witness:
  "node_D (nodes private_state ! 0) = Some (replicate 32 1) \<and>
   node_DEPTH (nodes private_state ! 0) = 0 \<and>
   (\<exists>c st'. CKDPriv sample_env private_state 0 1 = Inr (c, st') \<and>
      node_DEPTH (nodes st' ! c) = 0 \<and> node_INDEX (nodes st' ! c) = 0 \<and>
      node_PARENT_FINGERPRINT (nodes st' ! c) = 0)"
proof -
  have d: "node_D (nodes private_state ! 0) = Some (replicate 32 1)"
    by (simp add: private_state_def NodeEd25519_def)
  have z: "node_DEPTH (nodes private_state ! 0) = 0"
    by (simp add: private_state_def NodeEd25519_def)
  from CKDPriv_child [OF d, of 1 sample_env] d z show ?thesis
    by auto
qed

subsection \<open>Dispatch of \<open>derive\<close> and \<open>deriveHardened\<close>\<close>

text \<open>
  C4. On a neutered node, \<open>derive\<close> with an index of 2^31 or more fails with
  MissingPrivateKey, and so does not reach the public derivation. Otherwise \<open>derive\<close> is
  \<open>CKDPriv\<close> on a node with a private key and \<open>CKDPub\<close> on a neutered node.
\<close>

theorem derive_dispatch:
  "(isNeutered st this \<and> index \<ge> 2 ^ 31 \<longrightarrow> derive env st this index = Inl MissingPrivateKey) \<and>
   (\<not> isNeutered st this \<longrightarrow> derive env st this index = CKDPriv env st this index) \<and>
   (isNeutered st this \<and> index < 2 ^ 31 \<longrightarrow> derive env st this index = CKDPub env st this index)"
  by (simp add: derive_def Let_def HIGHEST_BIT_def)

theorem derive_dispatch_witness:
  "isNeutered public_state 0 \<and> \<not> isNeutered private_state 0 \<and>
   derive sample_env public_state 0 (2 ^ 31) = Inl MissingPrivateKey \<and>
   derive sample_env private_state 0 5 = CKDPriv sample_env private_state 0 5 \<and>
   derive sample_env public_state 0 5 = CKDPub sample_env public_state 0 5"
proof -
  have n: "isNeutered public_state 0"
    by (simp add: isNeutered_def public_state_def NodeEd25519_def)
  have p: "\<not> isNeutered private_state 0"
    by (simp add: isNeutered_def private_state_def NodeEd25519_def)
  from n p derive_dispatch [of public_state 0 "2 ^ 31" sample_env]
       derive_dispatch [of private_state 0 5 sample_env]
       derive_dispatch [of public_state 0 5 sample_env]
  show ?thesis by simp
qed

text \<open>
  C5. \<open>deriveHardened\<close> fails with IndexOverflow exactly when the index exceeds 2^31 - 1,
  and is \<open>derive\<close> at index + 2^31 otherwise.
\<close>

theorem deriveHardened_overflow:
  "(deriveHardened env st this index = Inl IndexOverflow) = (index > 2 ^ 31 - 1) \<and>
   (index \<le> 2 ^ 31 - 1 \<longrightarrow>
      deriveHardened env st this index = derive env st this (index + 2 ^ 31))"
  by (simp add: deriveHardened_def Let_def derive_not_overflow HIGHEST_BIT_def)

theorem deriveHardened_overflow_witness:
  "deriveHardened sample_env private_state 0 (2 ^ 31) = Inl IndexOverflow \<and>
   deriveHardened sample_env private_state 0 (2 ^ 31 - 1) \<noteq> Inl IndexOverflow \<and>
   deriveHardened sample_env private_state 0 (2 ^ 31 - 1) =
     derive sample_env private_state 0 (2 ^ 31 - 1 + 2 ^ 31)"
  using deriveHardened_overflow [of sample_env private_state 0 "2 ^ 31"]
        deriveHardened_overflow [of sample_env private_state 0 "2 ^ 31 - 1"]
  by auto

subsection \<open>Seeds\<close>

text \<open>
  C7. \<open>fromSeed\<close> rejects a seed shorter than 16 or longer than 64 bytes with
  InvalidSeedLength and returns a node for every seed of 16 to 64 bytes.
\<close>

theorem fromSeed_seed_length:
  "(length seed < 16 \<or> 64 < length seed \<longrightarrow> fromSeed env st seed net = Inl InvalidSeedLength) \<and>
   (16 \<le> length seed \<and> length seed \<le> 64 \<longrightarrow> (\<exists>r. fromSeed env st seed net = Inr r))"
  by (auto simp: fromSeed_def Let_def)

theorem fromSeed_seed_length_witness:
  "fromSeed sample_env empty_state (replicate 15 0) (CATAPULT sample_env) = Inl InvalidSeedLength \<and>
   fromSeed sample_env empty_state (replicate 65 0) (CATAPULT sample_env) = Inl InvalidSeedLength \<and>
   (\<exists>r. fromSeed sample_env empty_state (replicate 16 0) (CATAPULT sample_env) = Inr r) \<and>
   (\<exists>r. fromSeed sample_env empty_state (replicate 64 0) (CATAPULT sample_env) = Inr r)"
  using fromSeed_seed_length [of "replicate 15 0" sample_env empty_state "CATAPULT sample_env"]
        fromSeed_seed_length [of "replicate 65 0" sample_env empty_state "CATAPULT sample_env"]
        fromSeed_seed_length [of "replicate 16 0" sample_env empty_state "CATAPULT sample_env"]
        fromSeed_seed_length [of "replicate 64 0" sample_env empty_state "CATAPULT sample_env"]
  by simp

subsection \<open>Neutering\<close>

text \<open>
  C9. When the public key of a node is available (it is set, or the curve library derives
  it from the private key), \<open>neutered\<close> returns a new node without private key whose other
  fields, public-key Buffer included, are those of the original. The original keeps its
  fields (its public key is memoized if it was not yet), every other node and every
  Buffer is unchanged, the copy is neutered and both nodes answer \<open>publicKey\<close> with the
  same Buffer.
\<close>

theorem neutered_copy:
  assumes "this < length (nodes st)" and "publicKey env st this = Inr (q, st1)"
  shows "\<exists>m st'. neutered env st this = Inr (m, st') \<and>
           m = length (nodes st) \<and>
           nodes st' ! m = (nodes st ! this)\<lparr>node_D := None, node_Q := Some q\<rparr> \<and>
           nodes st' ! this = (nodes st ! this)\<lparr>node_Q := Some q\<rparr> \<and>
           (\<forall>k<length (nodes st). k \<noteq> this \<longrightarrow> nodes st' ! k = nodes st ! k) \<and>
           (\<forall>a<length (bufs st). bufs st' ! a = bufs st ! a) \<and>
           isNeutered st' m \<and>
           publicKey env st' m = Inr (q, st') \<and>
           publicKey env st' this = Inr (q, st')"
proof -
  from publicKey_effect [OF assms]
  have n1: "nodes st1 = (nodes st)[this := (nodes st ! this)\<lparr>node_Q := Some q\<rparr>]"
    and b1: "\<forall>a<length (bufs st). bufs st1 ! a = bufs st ! a" by simp_all
  let ?copy = "NodeEd25519 None (Some q) (chainCode (nodes st1 ! this)) (network (nodes st1 ! this))
                 (node_DEPTH (nodes st1 ! this)) (node_INDEX (nodes st1 ! this))
                 (node_PARENT_FINGERPRINT (nodes st1 ! this))"
  let ?st' = "st1\<lparr>nodes := nodes st1 @ [?copy]\<rparr>"
  have r: "neutered env st this = Inr (length (nodes st), ?st')"
    using assms n1 by (simp add: neutered_def new_node_def Let_def)
  have c: "nodes ?st' ! length (nodes st) = (nodes st ! this)\<lparr>node_D := None, node_Q := Some q\<rparr>"
    using assms(1) n1 by (simp add: nth_append NodeEd25519_def)
  have t: "nodes ?st' ! this = (nodes st ! this)\<lparr>node_Q := Some q\<rparr>"
    using assms(1) n1 by (simp add: nth_append)
  have o: "\<forall>k<length (nodes st). k \<noteq> this \<longrightarrow> nodes ?st' ! k = nodes st ! k"
    using n1 by (simp add: nth_append)
  have b: "\<forall>a<length (bufs st). bufs ?st' ! a = bufs st ! a" using b1 by simp
  have i: "isNeutered ?st' (length (nodes st))"
    using c by (simp add: isNeutered_def)
  have p1: "publicKey env ?st' (length (nodes st)) = Inr (q, ?st')"
    using c by (simp add: publicKey_def)
  have p2: "publicKey env ?st' this = Inr (q, ?st')"
    using t by (simp add: publicKey_def)
  from r c t o b i p1 p2 show ?thesis by blast
qed

theorem neutered_copy_witness:
  "\<exists>m st'. neutered sample_env private_state 0 = Inr (m, st') \<and>
     isNeutered st' m \<and> \<not> isNeutered st' 0 \<and>
     publicKey sample_env st' m = Inr (0, st') \<and>
     publicKey sample_env st' 0 = Inr (0, st') \<and>
     bufs st' ! 0 = replicate 32 2"
proof -
  have l: "0 < length (nodes private_state)" by (simp add: private_state_def)
  have p: "publicKey sample_env private_state 0 =
             Inr (0, private_state\<lparr>bufs := [replicate 32 2],
                   nodes := [NodeEd25519 (Some (replicate 32 1)) (Some 0) (replicate 32 2)
                               (CATAPULT sample_env) 0 0 0]\<rparr>)"
    by (simp add: publicKey_def private_state_def sample_env_def NodeEd25519_def new_buffer_def)
  from neutered_copy [OF l p] obtain m st' where
    h: "neutered sample_env private_state 0 = Inr (m, st')" "isNeutered st' m"
       "publicKey sample_env st' m = Inr (0, st')" "publicKey sample_env st' 0 = Inr (0, st')"
       "nodes st' ! 0 = (nodes private_state ! 0)\<lparr>node_Q := Some 0\<rparr>"
    by blast
  have "\<not> isNeutered st' 0"
    using h(5) by (simp add: isNeutered_def private_state_def NodeEd25519_def)
  moreover have "bufs st' ! 0 = replicate 32 2"
    using h(1) p by (auto simp: neutered_def new_node_def Let_def)
  ultimately show ?thesis using h by blast
qed

subsection \<open>Public child derivation\<close>




subsection \<open>Immutability of nodes\<close>



subsection \<open>Decoding an extended key\<close>

text \<open>
  C6. For a text that \<open>bs58check\<close> decodes to a payload \<open>b\<close>, the checks of \<open>fromBase58\<close>
  in their order: InvalidLength exactly when \<open>b\<close> is not 78 bytes long; then
  InvalidVersion when the version is neither prefix of \<open>Network.CATAPULT\<close>; then
  InvalidMasterNode when the depth is 0 and the parent fingerprint or the index is not;
  then, for the private prefix, InvalidPrivateKeyMarker when byte 45 is not 0. A payload
  that passes gives a node with the private key and no public key (private prefix) or
  with the public key and no private key (public prefix).
\<close>

theorem fromBase58_checks:
  assumes "bs58check_decode env inString = Some b"
  shows "((fromBase58 env st inString net = Inl InvalidLength) = (length b \<noteq> 78)) \<and>
    (length b = 78 \<and> readUInt32BE b 0 \<noteq> privateKeyPrefix (CATAPULT env)
           \<and> readUInt32BE b 0 \<noteq> publicKeyPrefix (CATAPULT env)
         \<longrightarrow> fromBase58 env st inString net = Inl InvalidVersion) \<and>
    (length b = 78 \<and> (readUInt32BE b 0 = privateKeyPrefix (CATAPULT env)
                           \<or> readUInt32BE b 0 = publicKeyPrefix (CATAPULT env))
           \<and> readUInt8 b 4 = 0 \<and> (readUInt32BE b 5 \<noteq> 0 \<or> readUInt32BE b 9 \<noteq> 0)
         \<longrightarrow> fromBase58 env st inString net = Inl InvalidMasterNode) \<and>
    (length b = 78 \<and> readUInt32BE b 0 = privateKeyPrefix (CATAPULT env)
           \<and> \<not> (readUInt8 b 4 = 0 \<and> (readUInt32BE b 5 \<noteq> 0 \<or> readUInt32BE b 9 \<noteq> 0))
           \<and> readUInt8 b 45 \<noteq> 0
         \<longrightarrow> fromBase58 env st inString net = Inl InvalidPrivateKeyMarker) \<and>
    (length b = 78 \<and> readUInt32BE b 0 = privateKeyPrefix (CATAPULT env)
           \<and> \<not> (readUInt8 b 4 = 0 \<and> (readUInt32BE b 5 \<noteq> 0 \<or> readUInt32BE b 9 \<noteq> 0))
           \<and> readUInt8 b 45 = 0
         \<longrightarrow> (\<exists>m st'. fromBase58 env st inString net = Inr (m, st') \<and>
                 node_D (nodes st' ! m) = Some (slice b 46 78) \<and>
                 node_Q (nodes st' ! m) = None)) \<and>
    (length b = 78 \<and> readUInt32BE b 0 \<noteq> privateKeyPrefix (CATAPULT env)
           \<and> readUInt32BE b 0 = publicKeyPrefix (CATAPULT env)
           \<and> \<not> (readUInt8 b 4 = 0 \<and> (readUInt32BE b 5 \<noteq> 0 \<or> readUInt32BE b 9 \<noteq> 0))
         \<longrightarrow> (\<exists>m st' a. fromBase58 env st inString net = Inr (m, st') \<and>
                 node_D (nodes st' ! m) = None \<and>
                 node_Q (nodes st' ! m) = Some a \<and>
                 bufs st' ! a = slice b 45 78))"
  using assms
  by (auto simp: fromBase58_def Let_def new_node_def new_buffer_def NodeEd25519_def)


theorem fromBase58_checks_witness:
  "fromBase58 sample_env empty_state (bs58check_encode sample_env payload_short)
     (CATAPULT sample_env) = Inl InvalidLength \<and>
   fromBase58 sample_env empty_state (bs58check_encode sample_env payload_bad_version)
     (CATAPULT sample_env) = Inl InvalidVersion \<and>
   fromBase58 sample_env empty_state (bs58check_encode sample_env payload_bad_master)
     (CATAPULT sample_env) = Inl InvalidMasterNode \<and>
   fromBase58 sample_env empty_state (bs58check_encode sample_env payload_bad_marker)
     (CATAPULT sample_env) = Inl InvalidPrivateKeyMarker \<and>
   (\<exists>m st'. fromBase58 sample_env empty_state (bs58check_encode sample_env payload_private)
       (CATAPULT sample_env) = Inr (m, st') \<and>
      node_D (nodes st' ! m) = Some (replicate 32 1) \<and> node_Q (nodes st' ! m) = None) \<and>
   (\<exists>m st' a. fromBase58 sample_env empty_state (bs58check_encode sample_env payload_public)
       (CATAPULT sample_env) = Inr (m, st') \<and>
      node_D (nodes st' ! m) = None \<and> node_Q (nodes st' ! m) = Some a \<and>
      bufs st' ! a = replicate 33 5)"
proof -
  note t = fromBase58_checks [OF sample_codec, where st = empty_state
                                and net = "CATAPULT sample_env"]
  have 1: "fromBase58 sample_env empty_state (bs58check_encode sample_env payload_short)
     (CATAPULT sample_env) = Inl InvalidLength"
    using t [where b = "payload_short"] by (simp add: payload_bad_reads)
  have 2: "fromBase58 sample_env empty_state (bs58check_encode sample_env payload_bad_version)
     (CATAPULT sample_env) = Inl InvalidVersion"
    using t [where b = "payload_bad_version"] by (simp add: payload_bad_reads sample_prefixes)
  have 3: "fromBase58 sample_env empty_state (bs58check_encode sample_env payload_bad_master)
     (CATAPULT sample_env) = Inl InvalidMasterNode"
    using t [where b = "payload_bad_master"] by (simp add: payload_bad_reads sample_prefixes)
  have 4: "fromBase58 sample_env empty_state (bs58check_encode sample_env payload_bad_marker)
     (CATAPULT sample_env) = Inl InvalidPrivateKeyMarker"
    using t [where b = "payload_bad_marker"] by (simp add: payload_bad_reads sample_prefixes)
  have 5: "\<exists>m st'. fromBase58 sample_env empty_state (bs58check_encode sample_env payload_private)
       (CATAPULT sample_env) = Inr (m, st') \<and>
      node_D (nodes st' ! m) = Some (replicate 32 1) \<and> node_Q (nodes st' ! m) = None"
    using t [where b = "payload_private"] by (simp add: payload_private_reads sample_prefixes)
  have 6: "\<exists>m st' a. fromBase58 sample_env empty_state (bs58check_encode sample_env payload_public)
       (CATAPULT sample_env) = Inr (m, st') \<and>
      node_D (nodes st' ! m) = None \<and> node_Q (nodes st' ! m) = Some a \<and>
      bufs st' ! a = replicate 33 5"
    using t [where b = "payload_public"] by (simp add: payload_public_reads sample_prefixes)
  from 1 2 3 4 5 6 show ?thesis by blast
qed

subsection \<open>Derivation paths\<close>

text \<open>
  C8. On a node whose parent fingerprint is 0, \<open>derivePath\<close> of \<open>m/0'/1\<close> is
  \<open>deriveHardened 0\<close> followed by \<open>derive 1\<close> on its result (and fails as the first of
  them that fails). In general, for a valid path that is not an \<open>m\<close> path on a node with a
  parent fingerprint, \<open>derivePath\<close> applies the segments from left to right, each to the
  node returned by the previous one.
\<close>

theorem derivePath_fold:
  "(node_PARENT_FINGERPRINT (nodes st ! this) = 0 \<longrightarrow>
      derivePath env st this (''m/0'' @ [apostrophe] @ ''/1'') =
        (case deriveHardened env st this 0 of
           Inl e \<Rightarrow> Inl e
         | Inr (child, st1) \<Rightarrow> derive env st1 child 1)) \<and>
   (isValidPath path \<and>
    \<not> (hd (split_on CHR ''/'' path) = ''m'' \<and> node_PARENT_FINGERPRINT (nodes st ! this) \<noteq> 0) \<longrightarrow>
      derivePath env st this path = derive_segments env this st (path_segments path))"
proof (intro conjI impI)
  assume "node_PARENT_FINGERPRINT (nodes st ! this) = 0"
  then show "derivePath env st this (''m/0'' @ [apostrophe] @ ''/1'') =
        (case deriveHardened env st this 0 of
           Inl e \<Rightarrow> Inl e
         | Inr (child, st1) \<Rightarrow> derive env st1 child 1)"
    unfolding derivePath_def Let_def path_m01_split
    using path_m01_valid
    by (simp add: derive_step_def parseInt_0 parseInt_1 not_apostrophe
             split: sum.splits)
next
  assume "isValidPath path \<and>
    \<not> (hd (split_on CHR ''/'' path) = ''m'' \<and> node_PARENT_FINGERPRINT (nodes st ! this) \<noteq> 0)"
  then show "derivePath env st this path = derive_segments env this st (path_segments path)"
    by (auto simp: derivePath_def Let_def path_segments_def foldl_derive_step)
qed

theorem derivePath_fold_witness:
  "node_PARENT_FINGERPRINT (nodes private_state ! 0) = 0 \<and>
   isValidPath (''m/0'' @ [apostrophe] @ ''/1'') \<and>
   derivePath sample_env private_state 0 (''m/0'' @ [apostrophe] @ ''/1'') =
     (case deriveHardened sample_env private_state 0 0 of
        Inl e \<Rightarrow> Inl e
      | Inr (child, st1) \<Rightarrow> derive sample_env st1 child 1) \<and>
   derivePath sample_env private_state 0 (''m/0'' @ [apostrophe] @ ''/1'') =
     derive_segments sample_env 0 private_state [''0'' @ [apostrophe], ''1''] \<and>
   (\<exists>st'. derivePath sample_env private_state 0 (''m/0'' @ [apostrophe] @ ''/1'') = Inr (2, st'))"
proof -
  let ?p = "''m/0'' @ [apostrophe] @ ''/1''"
  have m: "node_PARENT_FINGERPRINT (nodes private_state ! 0) = 0"
    by (simp add: private_state_def NodeEd25519_def)
  have s: "path_segments ?p = [''0'' @ [apostrophe], ''1'']"
    unfolding path_segments_def path_m01_split by simp
  note t = derivePath_fold [of private_state 0 sample_env ?p]
  have a: "derivePath sample_env private_state 0 ?p =
     (case deriveHardened sample_env private_state 0 0 of
        Inl e \<Rightarrow> Inl e
      | Inr (child, st1) \<Rightarrow> derive sample_env st1 child 1)"
    using t m by blast
  have b: "derivePath sample_env private_state 0 ?p =
     derive_segments sample_env 0 private_state [''0'' @ [apostrophe], ''1'']"
    unfolding s [symmetric] using t m path_m01_valid by blast
  have d0: "node_D (nodes private_state ! 0) = Some (replicate 32 1)"
    by (simp add: private_state_def NodeEd25519_def)
  have l0: "length (nodes private_state) = 1" by (simp add: private_state_def)
  obtain st1 where h1: "derive sample_env private_state 0 (0 + 2 ^ 31) = Inr (1, st1)"
      and k1: "node_D (nodes st1 ! 1) \<noteq> None"
    using derive_private [OF d0, of "0 + 2 ^ 31" sample_env] l0 by auto
  then obtain d1 where d1: "node_D (nodes st1 ! 1) = Some d1" by auto
  have l1: "length (nodes st1) = 2"
    using h1 d0 l0
    by (auto simp: derive_def Let_def isNeutered_def CKDPriv_result HIGHEST_BIT_def)
  obtain st2 where h2: "derive sample_env st1 1 1 = Inr (2, st2)"
    using derive_private [OF d1, of 1 sample_env] l1 by auto
  have "deriveHardened sample_env private_state 0 0 = Inr (1, st1)"
    using h1 by (simp add: deriveHardened_def Let_def HIGHEST_BIT_def)
  with a h2 have "derivePath sample_env private_state 0 ?p = Inr (2, st2)" by simp
  with m a b path_m01_valid show ?thesis by blast
qed

subsection \<open>Encoding and decoding again\<close>

text \<open>
  C2. Decoding what \<open>toBase58\<close> encoded. Let \<open>bs58check\<close> decode what it encoded, let the
  two prefixes of \<open>Network.CATAPULT\<close> be uint32 values, and take a node with a 32-byte chain
  code, a depth in 0..255, index and parent fingerprint in uint32, and index and
  fingerprint 0 when the depth is 0. If the node has a 32-byte private key, the decoded
  node has the same private key, chain code, depth, index and parent fingerprint. If it is
  neutered with a 33-byte public key and the two prefixes differ, the decoded node is
  neutered with the same public-key bytes, chain code, depth, index and parent
  fingerprint. If it is neutered with a 32-byte public key, the decoded node has the same
  chain code, depth, index and parent fingerprint, but its public key is not the original:
  it is the 32 bytes followed by byte 77 of the memory that \<open>allocUnsafe\<close> handed out.
  Encoding leaves the store as it was.
\<close>

theorem base58_roundtrip:
  assumes codec: "\<forall>b. bs58check_decode env (bs58check_encode env b) = Some b"
    and vp: "0 \<le> privateKeyPrefix (CATAPULT env)" "privateKeyPrefix (CATAPULT env) < 2 ^ 32"
    and vq: "0 \<le> publicKeyPrefix (CATAPULT env)" "publicKeyPrefix (CATAPULT env) < 2 ^ 32"
    and cc: "length (chainCode (nodes st ! this)) = 32"
    and dep: "0 \<le> node_DEPTH (nodes st ! this)" "node_DEPTH (nodes st ! this) < 2 ^ 8"
    and pfp: "0 \<le> node_PARENT_FINGERPRINT (nodes st ! this)"
             "node_PARENT_FINGERPRINT (nodes st ! this) < 2 ^ 32"
    and idx: "0 \<le> node_INDEX (nodes st ! this)" "node_INDEX (nodes st ! this) < 2 ^ 32"
    and master: "node_DEPTH (nodes st ! this) = 0 \<longrightarrow>
                   node_PARENT_FINGERPRINT (nodes st ! this) = 0 \<and> node_INDEX (nodes st ! this) = 0"
  shows "(\<forall>d. node_D (nodes st ! this) = Some d \<and> length d = 32 \<longrightarrow>
            (\<exists>s m st'. toBase58 env junk st this = Inr (s, st) \<and>
               fromBase58 env st s net = Inr (m, st') \<and>
               node_D (nodes st' ! m) = Some d \<and>
               node_Q (nodes st' ! m) = None \<and>
               chainCode (nodes st' ! m) = chainCode (nodes st ! this) \<and>
               node_DEPTH (nodes st' ! m) = node_DEPTH (nodes st ! this) \<and>
               node_INDEX (nodes st' ! m) = node_INDEX (nodes st ! this) \<and>
               node_PARENT_FINGERPRINT (nodes st' ! m) = node_PARENT_FINGERPRINT (nodes st ! this))) \<and>
         (\<forall>q. node_D (nodes st ! this) = None \<and> node_Q (nodes st ! this) = Some q \<and>
              length (bufs st ! q) = 33 \<and>
              privateKeyPrefix (CATAPULT env) \<noteq> publicKeyPrefix (CATAPULT env) \<longrightarrow>
            (\<exists>s m st' q'. toBase58 env junk st this = Inr (s, st) \<and>
               fromBase58 env st s net = Inr (m, st') \<and>
               node_D (nodes st' ! m) = None \<and>
               node_Q (nodes st' ! m) = Some q' \<and>
               bufs st' ! q' = bufs st ! q \<and>
               chainCode (nodes st' ! m) = chainCode (nodes st ! this) \<and>
               node_DEPTH (nodes st' ! m) = node_DEPTH (nodes st ! this) \<and>
               node_INDEX (nodes st' ! m) = node_INDEX (nodes st ! this) \<and>
               node_PARENT_FINGERPRINT (nodes st' ! m) = node_PARENT_FINGERPRINT (nodes st ! this))) \<and>
         (\<forall>q. node_D (nodes st ! this) = None \<and> node_Q (nodes st ! this) = Some q \<and>
              length (bufs st ! q) = 32 \<and>
              privateKeyPrefix (CATAPULT env) \<noteq> publicKeyPrefix (CATAPULT env) \<longrightarrow>
            (\<exists>s m st' q'. toBase58 env junk st this = Inr (s, st) \<and>
               fromBase58 env st s net = Inr (m, st') \<and>
               node_D (nodes st' ! m) = None \<and>
               node_Q (nodes st' ! m) = Some q' \<and>
               bufs st' ! q' = bufs st ! q @ [allocUnsafe 78 junk ! 77] \<and>
               chainCode (nodes st' ! m) = chainCode (nodes st ! this) \<and>
               node_DEPTH (nodes st' ! m) = node_DEPTH (nodes st ! this) \<and>
               node_INDEX (nodes st' ! m) = node_INDEX (nodes st ! this) \<and>
               node_PARENT_FINGERPRINT (nodes st' ! m) = node_PARENT_FINGERPRINT (nodes st ! this)))"
proof (intro conjI allI impI)
  let ?n = "nodes st ! this"
  fix d
  assume h: "node_D ?n = Some d \<and> length d = 32"
  define b where "b = uint32BE (privateKeyPrefix (CATAPULT env)) @ word_of_int (node_DEPTH ?n)
            # uint32BE (node_PARENT_FINGERPRINT ?n) @ uint32BE (node_INDEX ?n)
            @ chainCode ?n @ 0 # d"
  have enc: "toBase58 env junk st this = Inr (bs58check_encode env b, st)"
    unfolding b_def using h toBase58_private [OF _ _ cc vp dep pfp idx] by blast
  have dec: "bs58check_decode env (bs58check_encode env b) = Some b"
    using codec by simp
  note r = payload_reads [OF vp dep pfp idx cc, of d 0, folded b_def]
  have len: "length d = 32" using h by simp
  have "fromBase58 env st (bs58check_encode env b) net =
          Inr (length (nodes st),
               st\<lparr>nodes := nodes st @ [NodeEd25519 (Some d) None (chainCode ?n) net
                    (node_DEPTH ?n) (node_INDEX ?n) (node_PARENT_FINGERPRINT ?n)]\<rparr>)"
    unfolding fromBase58_def Let_def dec using master
    by (simp add: r [OF len] new_node_def)
  with enc show "\<exists>s m st'. toBase58 env junk st this = Inr (s, st) \<and>
               fromBase58 env st s net = Inr (m, st') \<and>
               node_D (nodes st' ! m) = Some d \<and>
               node_Q (nodes st' ! m) = None \<and>
               chainCode (nodes st' ! m) = chainCode ?n \<and>
               node_DEPTH (nodes st' ! m) = node_DEPTH ?n \<and>
               node_INDEX (nodes st' ! m) = node_INDEX ?n \<and>
               node_PARENT_FINGERPRINT (nodes st' ! m) = node_PARENT_FINGERPRINT ?n"
    by (simp add: NodeEd25519_def)
next
  let ?n = "nodes st ! this"
  fix q
  assume h: "node_D ?n = None \<and> node_Q ?n = Some q \<and> length (bufs st ! q) = 33 \<and>
             privateKeyPrefix (CATAPULT env) \<noteq> publicKeyPrefix (CATAPULT env)"
  then obtain k0 key where pk: "bufs st ! q = k0 # key" and len: "length key = 32"
    by (cases "bufs st ! q") simp_all
  define b where "b = uint32BE (publicKeyPrefix (CATAPULT env)) @ word_of_int (node_DEPTH ?n)
            # uint32BE (node_PARENT_FINGERPRINT ?n) @ uint32BE (node_INDEX ?n)
            @ chainCode ?n @ k0 # key"
  have enc: "toBase58 env junk st this = Inr (bs58check_encode env b, st)"
    unfolding b_def pk [symmetric] using h toBase58_public [OF _ _ _ cc vq dep pfp idx] by blast
  have dec: "bs58check_decode env (bs58check_encode env b) = Some b"
    using codec by simp
  note r = payload_reads [OF vq dep pfp idx cc, of key k0, folded b_def]
  have ne: "publicKeyPrefix (CATAPULT env) \<noteq> privateKeyPrefix (CATAPULT env)"
    using h by auto
  have "fromBase58 env st (bs58check_encode env b) net =
          Inr (length (nodes st),
               st\<lparr>bufs := bufs st @ [k0 # key],
                  nodes := nodes st @ [NodeEd25519 None (Some (length (bufs st))) (chainCode ?n) net
                    (node_DEPTH ?n) (node_INDEX ?n) (node_PARENT_FINGERPRINT ?n)]\<rparr>)"
    unfolding fromBase58_def Let_def dec using master ne
    by (simp add: r [OF len] new_node_def new_buffer_def)
  with enc pk show "\<exists>s m st' q'. toBase58 env junk st this = Inr (s, st) \<and>
               fromBase58 env st s net = Inr (m, st') \<and>
               node_D (nodes st' ! m) = None \<and>
               node_Q (nodes st' ! m) = Some q' \<and>
               bufs st' ! q' = bufs st ! q \<and>
               chainCode (nodes st' ! m) = chainCode ?n \<and>
               node_DEPTH (nodes st' ! m) = node_DEPTH ?n \<and>
               node_INDEX (nodes st' ! m) = node_INDEX ?n \<and>
               node_PARENT_FINGERPRINT (nodes st' ! m) = node_PARENT_FINGERPRINT ?n"
    by (simp add: NodeEd25519_def)
next
  let ?n = "nodes st ! this"
  fix q
  assume h: "node_D ?n = None \<and> node_Q ?n = Some q \<and> length (bufs st ! q) = 32 \<and>
             privateKeyPrefix (CATAPULT env) \<noteq> publicKeyPrefix (CATAPULT env)"
  let ?j = "allocUnsafe 78 junk ! 77"
  from h obtain k0 key0 where pk: "bufs st ! q = k0 # key0" and len0: "length key0 = 31"
    by (cases "bufs st ! q") simp_all
  define key where "key = key0 @ [?j]"
  have len: "length key = 32" by (simp add: key_def len0)
  have field: "bufs st ! q @ [?j] = k0 # key" by (simp add: pk key_def)
  define b where "b = uint32BE (publicKeyPrefix (CATAPULT env)) @ word_of_int (node_DEPTH ?n)
            # uint32BE (node_PARENT_FINGERPRINT ?n) @ uint32BE (node_INDEX ?n)
            @ chainCode ?n @ k0 # key"
  have enc: "toBase58 env junk st this = Inr (bs58check_encode env b, st)"
    unfolding b_def field [symmetric]
    using h toBase58_public32 [OF _ _ _ cc vq dep pfp idx, of q junk] by blast
  have dec: "bs58check_decode env (bs58check_encode env b) = Some b"
    using codec by simp
  note r = payload_reads [OF vq dep pfp idx cc, of key k0, folded b_def]
  have ne: "publicKeyPrefix (CATAPULT env) \<noteq> privateKeyPrefix (CATAPULT env)"
    using h by auto
  have "fromBase58 env st (bs58check_encode env b) net =
          Inr (length (nodes st),
               st\<lparr>bufs := bufs st @ [k0 # key],
                  nodes := nodes st @ [NodeEd25519 None (Some (length (bufs st))) (chainCode ?n) net
                    (node_DEPTH ?n) (node_INDEX ?n) (node_PARENT_FINGERPRINT ?n)]\<rparr>)"
    unfolding fromBase58_def Let_def dec using master ne
    by (simp add: r [OF len] new_node_def new_buffer_def)
  with enc field show "\<exists>s m st' q'. toBase58 env junk st this = Inr (s, st) \<and>
               fromBase58 env st s net = Inr (m, st') \<and>
               node_D (nodes st' ! m) = None \<and>
               node_Q (nodes st' ! m) = Some q' \<and>
               bufs st' ! q' = bufs st ! q @ [?j] \<and>
               chainCode (nodes st' ! m) = chainCode ?n \<and>
               node_DEPTH (nodes st' ! m) = node_DEPTH ?n \<and>
               node_INDEX (nodes st' ! m) = node_INDEX ?n \<and>
               node_PARENT_FINGERPRINT (nodes st' ! m) = node_PARENT_FINGERPRINT ?n"
    by (simp add: NodeEd25519_def)
qed

theorem base58_roundtrip_witness:
  "(\<exists>s m st'. toBase58 sample_env sample_junk private_state 0 = Inr (s, private_state) \<and>
      fromBase58 sample_env private_state s (CATAPULT sample_env) = Inr (m, st') \<and>
      node_D (nodes st' ! m) = Some (replicate 32 1) \<and>
      node_Q (nodes st' ! m) = None \<and>
      chainCode (nodes st' ! m) = replicate 32 2 \<and>
      node_DEPTH (nodes st' ! m) = 0 \<and> node_INDEX (nodes st' ! m) = 0 \<and>
      node_PARENT_FINGERPRINT (nodes st' ! m) = 0) \<and>
   (\<exists>s m st' q'. toBase58 sample_env sample_junk public33_state 0 = Inr (s, public33_state) \<and>
      fromBase58 sample_env public33_state s (CATAPULT sample_env) = Inr (m, st') \<and>
      node_D (nodes st' ! m) = None \<and> node_Q (nodes st' ! m) = Some q' \<and>
      bufs st' ! q' = replicate 33 3 \<and>
      chainCode (nodes st' ! m) = replicate 32 2 \<and>
      node_DEPTH (nodes st' ! m) = 3 \<and> node_INDEX (nodes st' ! m) = 7 \<and>
      node_PARENT_FINGERPRINT (nodes st' ! m) = 9) \<and>
   (\<exists>s m st' q'. toBase58 sample_env sample_junk public_state 0 = Inr (s, public_state) \<and>
      fromBase58 sample_env public_state s (CATAPULT sample_env) = Inr (m, st') \<and>
      node_D (nodes st' ! m) = None \<and> node_Q (nodes st' ! m) = Some q' \<and>
      bufs public_state ! 0 = replicate 32 3 \<and>
      bufs st' ! q' = replicate 32 3 @ [170] \<and>
      chainCode (nodes st' ! m) = replicate 32 2 \<and>
      node_DEPTH (nodes st' ! m) = 0 \<and> node_INDEX (nodes st' ! m) = 0 \<and>
      node_PARENT_FINGERPRINT (nodes st' ! m) = 0)"
proof -
  have c: "\<forall>b. bs58check_decode sample_env (bs58check_encode sample_env b) = Some b"
    by (simp add: sample_codec)
  have p: "0 \<le> privateKeyPrefix (CATAPULT sample_env)"
          "privateKeyPrefix (CATAPULT sample_env) < 2 ^ 32"
          "0 \<le> publicKeyPrefix (CATAPULT sample_env)"
          "publicKeyPrefix (CATAPULT sample_env) < 2 ^ 32"
    by (simp_all add: sample_prefixes)
  have n1: "nodes private_state ! 0 =
              NodeEd25519 (Some (replicate 32 1)) None (replicate 32 2) (CATAPULT sample_env) 0 0 0"
    by (simp add: private_state_def)
  have n2: "nodes public33_state ! 0 =
              NodeEd25519 None (Some 0) (replicate 32 2) (CATAPULT sample_env) 3 7 9"
           "bufs public33_state ! 0 = replicate 33 3"
    by (simp_all add: public33_state_def)
  have 1: "\<exists>s m st'. toBase58 sample_env sample_junk private_state 0 = Inr (s, private_state) \<and>
      fromBase58 sample_env private_state s (CATAPULT sample_env) = Inr (m, st') \<and>
      node_D (nodes st' ! m) = Some (replicate 32 1) \<and>
      node_Q (nodes st' ! m) = None \<and>
      chainCode (nodes st' ! m) = replicate 32 2 \<and>
      node_DEPTH (nodes st' ! m) = 0 \<and> node_INDEX (nodes st' ! m) = 0 \<and>
      node_PARENT_FINGERPRINT (nodes st' ! m) = 0"
    using base58_roundtrip [OF c p, of private_state 0 sample_junk "CATAPULT sample_env"]
    by (simp add: n1 NodeEd25519_def)
  have 2: "\<exists>s m st' q'. toBase58 sample_env sample_junk public33_state 0 = Inr (s, public33_state) \<and>
      fromBase58 sample_env public33_state s (CATAPULT sample_env) = Inr (m, st') \<and>
      node_D (nodes st' ! m) = None \<and> node_Q (nodes st' ! m) = Some q' \<and>
      bufs st' ! q' = replicate 33 3 \<and>
      chainCode (nodes st' ! m) = replicate 32 2 \<and>
      node_DEPTH (nodes st' ! m) = 3 \<and> node_INDEX (nodes st' ! m) = 7 \<and>
      node_PARENT_FINGERPRINT (nodes st' ! m) = 9"
    using base58_roundtrip [OF c p, of public33_state 0 sample_junk "CATAPULT sample_env"]
    by (simp add: n2 NodeEd25519_def sample_prefixes)
  have n3: "nodes public_state ! 0 =
              NodeEd25519 None (Some 0) (replicate 32 2) (CATAPULT sample_env) 0 0 0"
           "bufs public_state ! 0 = replicate 32 3"
    by (simp_all add: public_state_def)
  have j: "allocUnsafe 78 sample_junk ! 77 = 170"
    by code_simp
  have 3: "\<exists>s m st' q'. toBase58 sample_env sample_junk public_state 0 = Inr (s, public_state) \<and>
      fromBase58 sample_env public_state s (CATAPULT sample_env) = Inr (m, st') \<and>
      node_D (nodes st' ! m) = None \<and> node_Q (nodes st' ! m) = Some q' \<and>
      bufs public_state ! 0 = replicate 32 3 \<and>
      bufs st' ! q' = replicate 32 3 @ [170] \<and>
      chainCode (nodes st' ! m) = replicate 32 2 \<and>
      node_DEPTH (nodes st' ! m) = 0 \<and> node_INDEX (nodes st' ! m) = 0 \<and>
      node_PARENT_FINGERPRINT (nodes st' ! m) = 0"
    using base58_roundtrip [OF c p, of public_state 0 sample_junk "CATAPULT sample_env"]
    by (simp add: n3 NodeEd25519_def sample_prefixes j)
  from 1 2 3 show ?thesis by blast
qed

end
